theory Spec2Isabelle
  imports Main
begin

section \<open>Kiro event stream to Anthropic Messages API: the streaming translator\<close>

text \<open>
  A shallow embedding of \<^verbatim>\<open>kiro_gateway/anthropic_streaming.py\<close>: the generator
  \<^verbatim>\<open>stream_kiro_to_anthropic\<close> and the coroutine \<^verbatim>\<open>collect_anthropic_response\<close>.

  Conventions of the model.
  \<^item> Every dict literal the code builds is kept as a JSON value, key by key and in the
    order of the source.
  \<^item> A yielded string \<^verbatim>\<open>f"event: {name}\ndata: {json.dumps(payload)}\n\n"\<close> is
    the pair of the event name and the payload.
  \<^item> The generator's run is the list of frames it yields together with the way it
    ends: it returns, or it re-raises.
  \<^item> \<^verbatim>\<open>debug_logger\<close> keeps its default \<^verbatim>\<open>None\<close>, so the logging branches
    are not taken.
  \<^item> The collaborators that are imported from other modules
    (\<^verbatim>\<open>AwsEventStreamParser\<close>, \<^verbatim>\<open>parse_bracket_tool_calls\<close>,
    \<^verbatim>\<open>generate_completion_id\<close>) and from the standard library
    (\<^verbatim>\<open>json.loads\<close>, \<^verbatim>\<open>time.time\<close>) are parameters, collected in one
    environment record.
\<close>

subsection \<open>JSON values and dicts\<close>

datatype json =
    JNull
  | JBool bool
  | JInt int
  | JStr string
  | JList "json list"
  | JObj "(string \<times> json) list"

type_synonym 'v dict = "(string \<times> 'v) list"

text \<open>\<^verbatim>\<open>d.get(k, default)\<close>\<close>

definition dict_get :: "'v dict \<Rightarrow> string \<Rightarrow> 'v \<Rightarrow> 'v" where
  "dict_get d k dflt = (case map_of d k of None \<Rightarrow> dflt | Some v \<Rightarrow> v)"

text \<open>\<^verbatim>\<open>str(n)\<close> for an integer: decimal digits, a minus sign when negative.\<close>

function str_nat :: "nat \<Rightarrow> string" where
  "str_nat n =
     (if n < 10 then [''0123456789'' ! n]
      else str_nat (n div 10) @ [''0123456789'' ! (n mod 10)])"
  by pat_completeness auto
termination
  by (relation "measure id") auto

declare str_nat.simps [simp del]

definition str_int :: "int \<Rightarrow> string" where
  "str_int i = (if i < 0 then CHR ''-'' # str_nat (nat (- i)) else str_nat (nat i))"

subsection \<open>What the translator receives\<close>

text \<open>
  An exception that \<^verbatim>\<open>except Exception\<close> catches, with the text
  \<^verbatim>\<open>str(e)\<close> that the error event reports.
\<close>

datatype exn = Exn string

fun exn_message :: "exn \<Rightarrow> string" where
  "exn_message (Exn msg) = msg"

text \<open>
  The events \<^verbatim>\<open>parser.feed\<close> returns are dicts; the translator reads them with
  \<^verbatim>\<open>.get\<close> only. \<open>ContentEvent d\<close> is \<^verbatim>\<open>{"type": "content", "data": d}\<close>,
  with \<open>None\<close> when the key \<^verbatim>\<open>data\<close> is absent; \<open>MetadataEvent m\<close> is
  \<^verbatim>\<open>{"type": "metadata", "metadata": m}\<close>, where \<open>m\<close> maps \<^verbatim>\<open>"usage"\<close> to a
  dict of counters; \<open>OtherEvent\<close> is an event of any other type. The text of a
  content event is a string and the counters are integers, so the type errors that
  Python would raise on other values are outside the model.
\<close>

datatype event =
    ContentEvent "string option"
  | MetadataEvent "int dict dict option"
  | OtherEvent

text \<open>
  A tool call in the format \<^verbatim>\<open>parser.get_tool_calls()\<close> returns: only the key
  \<^verbatim>\<open>function\<close> is read, and its value is a dict with \<^verbatim>\<open>name\<close> and
  \<^verbatim>\<open>arguments\<close>.
\<close>

type_synonym tool_call = "json dict dict"

text \<open>
  \<^verbatim>\<open>response.aiter_bytes()\<close>: the body as the iterator delivers it, chunk by chunk,
  until it ends or the read raises.
\<close>

datatype response =
    EndOfStream
  | Chunk string response
  | ReadError exn

text \<open>
  How \<^verbatim>\<open>json.loads\<close> can fail on a string: with \<^verbatim>\<open>JSONDecodeError\<close> or
  another \<^verbatim>\<open>ValueError\<close>, which the conversion of a tool call catches, or with any
  other exception (\<^verbatim>\<open>RecursionError\<close> on deeply nested text), which it does not.
\<close>

datatype loads_error = DecodeError | OtherError exn

text \<open>
  The environment. \<open>'p\<close> is the state of the parser object; \<open>feed\<close> returns the
  decoded events and the parser's new state, or raises. \<open>json_loads\<close> returns the
  decoded value or the way it fails. \<open>time_ms n\<close> is the value of
  \<^verbatim>\<open>int(time.time() * 1000)\<close> at the reading taken when \<open>n\<close> tool-use blocks
  have been built so far (one reading is taken for each block).
\<close>

record 'p env =
  new_parser :: 'p
  feed :: "'p \<Rightarrow> string \<Rightarrow> exn + (event list \<times> 'p)"
  get_tool_calls :: "'p \<Rightarrow> exn + tool_call list"
  parse_bracket_tool_calls :: "string \<Rightarrow> json dict list"
  generate_completion_id :: string
  json_loads :: "string \<Rightarrow> loads_error + json"
  time_ms :: "nat \<Rightarrow> int"

subsection \<open>The local variables of the two functions\<close>

record counters =
  accumulated_text :: string
  input_tokens :: int
  output_tokens :: int

record stream_state = counters +
  tool_uses :: "json list"
  current_tool_index :: int
  message_started :: bool

record collect_state = counters +
  content_blocks :: "json list"
  stop_reason :: string

definition init_stream_state :: stream_state where
  "init_stream_state =
     \<lparr>accumulated_text = [], input_tokens = 0, output_tokens = 0,
      tool_uses = [], current_tool_index = 0, message_started = False\<rparr>"

definition init_collect_state :: collect_state where
  "init_collect_state =
     \<lparr>accumulated_text = [], input_tokens = 0, output_tokens = 0,
      content_blocks = [], stop_reason = ''end_turn''\<rparr>"

text \<open>\<^verbatim>\<open>if not request_id: request_id = f"msg_{generate_completion_id()}"\<close>\<close>

definition resolve_request_id :: "'p env \<Rightarrow> string option \<Rightarrow> string" where
  "resolve_request_id env request_id =
     (case request_id of
        None \<Rightarrow> ''msg_'' @ generate_completion_id env
      | Some r \<Rightarrow> if r = [] then ''msg_'' @ generate_completion_id env else r)"

subsection \<open>The frames of the streaming protocol\<close>

type_synonym frame = "string \<times> json"

definition message_start_frame :: "string \<Rightarrow> string \<Rightarrow> frame" where
  "message_start_frame request_id model =
     (''message_start'',
      JObj [(''type'', JStr ''message_start''),
            (''message'',
             JObj [(''id'', JStr request_id),
                   (''type'', JStr ''message''),
                   (''role'', JStr ''assistant''),
                   (''content'', JList []),
                   (''model'', JStr model),
                   (''stop_reason'', JNull),
                   (''stop_sequence'', JNull),
                   (''usage'',
                    JObj [(''input_tokens'', JInt 0), (''output_tokens'', JInt 0)])])])"

definition block_start_frame :: "int \<Rightarrow> json \<Rightarrow> frame" where
  "block_start_frame index content_block =
     (''content_block_start'',
      JObj [(''type'', JStr ''content_block_start''),
            (''index'', JInt index),
            (''content_block'', content_block)])"

definition block_stop_frame :: "int \<Rightarrow> frame" where
  "block_stop_frame index =
     (''content_block_stop'',
      JObj [(''type'', JStr ''content_block_stop''), (''index'', JInt index)])"

definition text_block :: "string \<Rightarrow> json" where
  "text_block t = JObj [(''type'', JStr ''text''), (''text'', JStr t)]"

definition text_delta_frame :: "string \<Rightarrow> frame" where
  "text_delta_frame content =
     (''content_block_delta'',
      JObj [(''type'', JStr ''content_block_delta''),
            (''index'', JInt 0),
            (''delta'', JObj [(''type'', JStr ''text_delta''), (''text'', JStr content)])])"

definition message_delta_frame :: "string \<Rightarrow> int \<Rightarrow> frame" where
  "message_delta_frame reason out_tokens =
     (''message_delta'',
      JObj [(''type'', JStr ''message_delta''),
            (''delta'', JObj [(''stop_reason'', JStr reason), (''stop_sequence'', JNull)]),
            (''usage'', JObj [(''output_tokens'', JInt out_tokens)])])"

definition message_stop_frame :: frame where
  "message_stop_frame = (''message_stop'', JObj [(''type'', JStr ''message_stop'')])"

definition error_frame :: "exn \<Rightarrow> frame" where
  "error_frame e =
     (case e of Exn msg \<Rightarrow>
        (''error'',
         JObj [(''type'', JStr ''error''),
               (''error'', JObj [(''type'', JStr ''api_error''), (''message'', JStr msg)])]))"

text \<open>\<^verbatim>\<open>f"toolu_{int(time.time() * 1000)}_{index}"\<close>\<close>

definition tool_use_id :: "int \<Rightarrow> int \<Rightarrow> string" where
  "tool_use_id ms index = ''toolu_'' @ str_int ms @ ''_'' @ str_int index"

definition tool_use_block :: "string \<Rightarrow> json \<Rightarrow> json \<Rightarrow> json" where
  "tool_use_block ident nm inp =
     JObj [(''type'', JStr ''tool_use''), (''id'', JStr ident), (''name'', nm), (''input'', inp)]"

subsection \<open>\<^verbatim>\<open>stream_kiro_to_anthropic\<close>: one event\<close>

text \<open>
  The body of \<^verbatim>\<open>for tc in tool_calls\<close> in the content branch: the block is built,
  appended to \<^verbatim>\<open>tool_uses\<close>, its start and stop frames are yielded with
  \<^verbatim>\<open>current_tool_index\<close> as the index, and the index is incremented.
\<close>

definition inline_tool_use :: "'p env \<Rightarrow> stream_state \<Rightarrow> json dict \<Rightarrow> json" where
  "inline_tool_use env s tc =
     tool_use_block
       (tool_use_id (time_ms env (length (tool_uses s))) (current_tool_index s))
       (dict_get tc ''name'' (JStr []))
       (dict_get tc ''arguments'' (JObj []))"

fun emit_inline_tool_calls ::
  "'p env \<Rightarrow> stream_state \<Rightarrow> json dict list \<Rightarrow> frame list \<times> stream_state" where
  "emit_inline_tool_calls env s [] = ([], s)"
| "emit_inline_tool_calls env s (tc # tcs) =
     (let tool_use = inline_tool_use env s tc;
          s1 = s\<lparr>tool_uses := tool_uses s @ [tool_use]\<rparr>;
          out = [block_start_frame (current_tool_index s1) tool_use,
                 block_stop_frame (current_tool_index s1)];
          s2 = s1\<lparr>current_tool_index := current_tool_index s1 + 1\<rparr>;
          (out', s') = emit_inline_tool_calls env s2 tcs
      in (out @ out', s'))"

text \<open>The branch \<^verbatim>\<open>if event_type == "content"\<close>.\<close>

definition handle_content ::
  "'p env \<Rightarrow> string \<Rightarrow> string \<Rightarrow> stream_state \<Rightarrow> string option \<Rightarrow> frame list \<times> stream_state" where
  "handle_content env request_id model s d =
     (let content = (case d of None \<Rightarrow> [] | Some c \<Rightarrow> c);
          (out0, s0) =
            (if \<not> message_started s
             then ([message_start_frame request_id model], s\<lparr>message_started := True\<rparr>)
             else ([], s));
          tool_calls = parse_bracket_tool_calls env content
      in if tool_calls \<noteq> [] then
           (let (out1, s1) = emit_inline_tool_calls env s0 tool_calls in (out0 @ out1, s1))
         else if content \<noteq> [] then
           (out0
              @ (if accumulated_text s0 = [] then [block_start_frame 0 (text_block [])] else [])
              @ [text_delta_frame content],
            s0\<lparr>accumulated_text := accumulated_text s0 @ content\<rparr>)
         else (out0, s0))"

text \<open>The branch \<^verbatim>\<open>elif event_type == "metadata"\<close>, the same in both functions.\<close>

definition usage_of :: "int dict dict option \<Rightarrow> int dict" where
  "usage_of m = dict_get (case m of None \<Rightarrow> [] | Some metadata \<Rightarrow> metadata) ''usage'' []"

definition handle_event ::
  "'p env \<Rightarrow> string \<Rightarrow> string \<Rightarrow> stream_state \<Rightarrow> event \<Rightarrow> frame list \<times> stream_state" where
  "handle_event env request_id model s ev =
     (case ev of
        ContentEvent d \<Rightarrow> handle_content env request_id model s d
      | MetadataEvent m \<Rightarrow>
          ([], s\<lparr>input_tokens := dict_get (usage_of m) ''inputTokens'' 0,
                 output_tokens := dict_get (usage_of m) ''outputTokens'' 0\<rparr>)
      | OtherEvent \<Rightarrow> ([], s))"

text \<open>\<^verbatim>\<open>for event in events\<close>\<close>

fun handle_events ::
  "'p env \<Rightarrow> string \<Rightarrow> string \<Rightarrow> stream_state \<Rightarrow> event list \<Rightarrow> frame list \<times> stream_state" where
  "handle_events env request_id model s [] = ([], s)"
| "handle_events env request_id model s (ev # evs) =
     (let (out, s1) = handle_event env request_id model s ev;
          (out', s2) = handle_events env request_id model s1 evs
      in (out @ out', s2))"

subsection \<open>\<^verbatim>\<open>stream_kiro_to_anthropic\<close>: the read loop and the end of the stream\<close>

text \<open>
  \<^verbatim>\<open>async for chunk in response.aiter_bytes()\<close>: an empty chunk is skipped, any other
  is fed to the parser. The loop ends with the parser and the variables, or with the
  exception that the read or \<^verbatim>\<open>parser.feed\<close> raised; the frames yielded until then
  are kept either way.
\<close>

fun read_loop ::
  "'p env \<Rightarrow> string \<Rightarrow> string \<Rightarrow> 'p \<Rightarrow> stream_state \<Rightarrow> response
     \<Rightarrow> frame list \<times> (exn + 'p \<times> stream_state)" where
  "read_loop env request_id model p s EndOfStream = ([], Inr (p, s))"
| "read_loop env request_id model p s (ReadError e) = ([], Inl e)"
| "read_loop env request_id model p s (Chunk chunk rest) =
     (if chunk = [] then read_loop env request_id model p s rest
      else case feed env p chunk of
             Inl e \<Rightarrow> ([], Inl e)
           | Inr (events, p') \<Rightarrow>
               (let (out, s') = handle_events env request_id model s events;
                    (out', r) = read_loop env request_id model p' s' rest
                in (out @ out', r)))"

text \<open>
  The conversion of one parser tool call, the \<^verbatim>\<open>try\<close> inside the loop:
  \<^verbatim>\<open>json.loads\<close> on a string, with \<^verbatim>\<open>JSONDecodeError\<close> and
  \<^verbatim>\<open>ValueError\<close> caught and replaced by the empty dict. Any other exception of
  \<^verbatim>\<open>json.loads\<close> leaves the inner \<^verbatim>\<open>try\<close> and is the result.
\<close>

definition parse_arguments :: "'p env \<Rightarrow> tool_call \<Rightarrow> exn + json" where
  "parse_arguments env tool_call =
     (let arguments = dict_get (dict_get tool_call ''function'' []) ''arguments'' (JStr ''{}'')
      in case arguments of
           JStr a \<Rightarrow>
             (case json_loads env a of
                Inr v \<Rightarrow> Inr v
              | Inl DecodeError \<Rightarrow> Inr (JObj [])
              | Inl (OtherError e) \<Rightarrow> Inl e)
         | _ \<Rightarrow> Inr arguments)"

definition parser_tool_use :: "'p env \<Rightarrow> stream_state \<Rightarrow> tool_call \<Rightarrow> json \<Rightarrow> json" where
  "parser_tool_use env s tool_call arguments =
     tool_use_block
       (tool_use_id (time_ms env (length (tool_uses s))) (current_tool_index s))
       (dict_get (dict_get tool_call ''function'' []) ''name'' (JStr []))
       arguments"

text \<open>
  \<^verbatim>\<open>for tool_call in parser_tool_calls\<close>. The guard \<^verbatim>\<open>if parser_tool_calls\<close>
  around it only decides a log line: on the empty list the loop does nothing. The loop
  ends with the variables, or with the exception of a conversion; the frames yielded
  until then are kept.
\<close>

fun emit_parser_tool_calls ::
  "'p env \<Rightarrow> stream_state \<Rightarrow> tool_call list \<Rightarrow> frame list \<times> (exn + stream_state)" where
  "emit_parser_tool_calls env s [] = ([], Inr s)"
| "emit_parser_tool_calls env s (tool_call # rest) =
     (case parse_arguments env tool_call of
        Inl e \<Rightarrow> ([], Inl e)
      | Inr arguments \<Rightarrow>
          (let tool_use = parser_tool_use env s tool_call arguments;
               s1 = s\<lparr>tool_uses := tool_uses s @ [tool_use]\<rparr>;
               index = current_tool_index s1 + (if accumulated_text s1 \<noteq> [] then 1 else 0);
               out = [block_start_frame index tool_use, block_stop_frame index];
               s2 = s1\<lparr>current_tool_index := current_tool_index s1 + 1\<rparr>;
               (out', r) = emit_parser_tool_calls env s2 rest
           in (out @ out', r)))"

text \<open>
  After the loop: the stop of the text block, the parser's tool calls, the stop reason,
  \<^verbatim>\<open>message_delta\<close> and \<^verbatim>\<open>message_stop\<close>. \<^verbatim>\<open>parser.get_tool_calls()\<close> is
  inside the \<^verbatim>\<open>try\<close> as well, so it may raise.
\<close>

definition finish :: "'p env \<Rightarrow> 'p \<Rightarrow> stream_state \<Rightarrow> frame list \<times> (exn + stream_state)" where
  "finish env p s =
     (let out0 = (if accumulated_text s \<noteq> [] then [block_stop_frame 0] else [])
      in case get_tool_calls env p of
           Inl e \<Rightarrow> (out0, Inl e)
         | Inr parser_tool_calls \<Rightarrow>
             (case emit_parser_tool_calls env s parser_tool_calls of
                (out1, Inl e) \<Rightarrow> (out0 @ out1, Inl e)
              | (out1, Inr s1) \<Rightarrow>
                  (let reason = (if tool_uses s1 \<noteq> [] then ''tool_use'' else ''end_turn'')
                   in (out0 @ out1
                         @ [message_delta_frame reason (output_tokens s1), message_stop_frame],
                       Inr s1))))"

datatype outcome = Returned | Raised exn

text \<open>
  The whole generator. \<^verbatim>\<open>except Exception as e\<close> yields the error frame and
  re-raises; it covers the loop and everything after it.
\<close>

definition stream_kiro_to_anthropic ::
  "'p env \<Rightarrow> response \<Rightarrow> string \<Rightarrow> string option \<Rightarrow> frame list \<times> outcome" where
  "stream_kiro_to_anthropic env response model request_id =
     (let rid = resolve_request_id env request_id;
          (out, r) = read_loop env rid model (new_parser env) init_stream_state response
      in case r of
           Inl e \<Rightarrow> (out @ [error_frame e], Raised e)
         | Inr (p, s) \<Rightarrow>
             (case finish env p s of
                (out', Inl e) \<Rightarrow> (out @ out' @ [error_frame e], Raised e)
              | (out', Inr s') \<Rightarrow> (out @ out', Returned)))"

subsection \<open>\<^verbatim>\<open>collect_anthropic_response\<close>\<close>

text \<open>
  The body of \<^verbatim>\<open>for tc in tool_calls\<close>: the identifier ends in
  \<^verbatim>\<open>len(content_blocks)\<close>, and the block is appended.
\<close>

definition collect_tool_use :: "'p env \<Rightarrow> collect_state \<Rightarrow> json dict \<Rightarrow> json" where
  "collect_tool_use env s tc =
     tool_use_block
       (tool_use_id (time_ms env (length (content_blocks s))) (int (length (content_blocks s))))
       (dict_get tc ''name'' (JStr []))
       (dict_get tc ''arguments'' (JObj []))"

fun collect_tool_calls :: "'p env \<Rightarrow> collect_state \<Rightarrow> json dict list \<Rightarrow> collect_state" where
  "collect_tool_calls env s [] = s"
| "collect_tool_calls env s (tc # tcs) =
     collect_tool_calls env (s\<lparr>content_blocks := content_blocks s @ [collect_tool_use env s tc]\<rparr>) tcs"

definition collect_event :: "'p env \<Rightarrow> collect_state \<Rightarrow> event \<Rightarrow> collect_state" where
  "collect_event env s ev =
     (case ev of
        ContentEvent d \<Rightarrow>
          (let content = (case d of None \<Rightarrow> [] | Some c \<Rightarrow> c);
               tool_calls = parse_bracket_tool_calls env content
           in if tool_calls \<noteq> [] then
                (collect_tool_calls env s tool_calls)\<lparr>stop_reason := ''tool_use''\<rparr>
              else s\<lparr>accumulated_text := accumulated_text s @ content\<rparr>)
      | MetadataEvent m \<Rightarrow>
          s\<lparr>input_tokens := dict_get (usage_of m) ''inputTokens'' 0,
            output_tokens := dict_get (usage_of m) ''outputTokens'' 0\<rparr>
      | OtherEvent \<Rightarrow> s)"

fun collect_events :: "'p env \<Rightarrow> collect_state \<Rightarrow> event list \<Rightarrow> collect_state" where
  "collect_events env s [] = s"
| "collect_events env s (ev # evs) = collect_events env (collect_event env s ev) evs"

fun collect_loop :: "'p env \<Rightarrow> 'p \<Rightarrow> collect_state \<Rightarrow> response \<Rightarrow> exn + collect_state" where
  "collect_loop env p s EndOfStream = Inr s"
| "collect_loop env p s (ReadError e) = Inl e"
| "collect_loop env p s (Chunk chunk rest) =
     (if chunk = [] then collect_loop env p s rest
      else case feed env p chunk of
             Inl e \<Rightarrow> Inl e
           | Inr (events, p') \<Rightarrow> collect_loop env p' (collect_events env s events) rest)"

text \<open>
  After the loop the text block, if any, is inserted at the front, and the response
  dict is built. \<^verbatim>\<open>except Exception\<close> logs and re-raises: no object is returned.
\<close>

definition build_response :: "string \<Rightarrow> string \<Rightarrow> collect_state \<Rightarrow> json" where
  "build_response request_id model s =
     (let blocks = (if accumulated_text s \<noteq> []
                    then text_block (accumulated_text s) # content_blocks s
                    else content_blocks s)
      in JObj [(''id'', JStr request_id),
               (''type'', JStr ''message''),
               (''role'', JStr ''assistant''),
               (''content'', JList blocks),
               (''model'', JStr model),
               (''stop_reason'', JStr (stop_reason s)),
               (''stop_sequence'', JNull),
               (''usage'',
                JObj [(''input_tokens'', JInt (input_tokens s)),
                      (''output_tokens'', JInt (output_tokens s))])])"

definition collect_anthropic_response ::
  "'p env \<Rightarrow> response \<Rightarrow> string \<Rightarrow> string option \<Rightarrow> exn + json" where
  "collect_anthropic_response env response model request_id =
     (let rid = resolve_request_id env request_id
      in case collect_loop env (new_parser env) init_collect_state response of
           Inl e \<Rightarrow> Inl e
         | Inr s \<Rightarrow> Inr (build_response rid model s))"

subsection \<open>Describing a translation\<close>

text \<open>
  The record sequence of a translation: the events the parser decodes from the
  non-empty chunks, in order, up to the end of the body (then with the parser's final
  state) or up to the first exception of the read or of \<^verbatim>\<open>parser.feed\<close>.
\<close>

fun records :: "'p env \<Rightarrow> 'p \<Rightarrow> response \<Rightarrow> event list \<times> (exn + 'p)" where
  "records env p EndOfStream = ([], Inr p)"
| "records env p (ReadError e) = ([], Inl e)"
| "records env p (Chunk chunk rest) =
     (if chunk = [] then records env p rest
      else case feed env p chunk of
             Inl e \<Rightarrow> ([], Inl e)
           | Inr (events, p') \<Rightarrow>
               (let (evs, r) = records env p' rest in (events @ evs, r)))"

text \<open>The text of a content record, and the tool invocations found in a record.\<close>

definition content_of :: "string option \<Rightarrow> string" where
  "content_of d = (case d of None \<Rightarrow> [] | Some c \<Rightarrow> c)"

fun inline_calls :: "'p env \<Rightarrow> event \<Rightarrow> json dict list" where
  "inline_calls env (ContentEvent d) = parse_bracket_tool_calls env (content_of d)"
| "inline_calls env (MetadataEvent m) = []"
| "inline_calls env OtherEvent = []"

fun is_content :: "event \<Rightarrow> bool" where
  "is_content (ContentEvent d) = True"
| "is_content (MetadataEvent m) = False"
| "is_content OtherEvent = False"

fun has_text :: "event \<Rightarrow> bool" where
  "has_text (ContentEvent d) = (content_of d \<noteq> [])"
| "has_text (MetadataEvent m) = False"
| "has_text OtherEvent = False"

text \<open>All tool invocations the extractor finds in a record sequence.\<close>

definition inline_invocations :: "'p env \<Rightarrow> event list \<Rightarrow> json dict list" where
  "inline_invocations env evs = concat (map (inline_calls env) evs)"

text \<open>
  The usage mappings of the metadata records of a sequence, in order, and the one of
  the last metadata record (the empty mapping when there is none).
\<close>

fun usages :: "event list \<Rightarrow> int dict list" where
  "usages [] = []"
| "usages (ContentEvent d # evs) = usages evs"
| "usages (MetadataEvent m # evs) = usage_of m # usages evs"
| "usages (OtherEvent # evs) = usages evs"

definition final_usage :: "event list \<Rightarrow> int dict" where
  "final_usage evs = (if usages evs = [] then [] else last (usages evs))"

text \<open>Reading a frame and a block.\<close>

definition frame_name :: "frame \<Rightarrow> string" where
  "frame_name f = fst f"

fun field :: "string \<Rightarrow> json \<Rightarrow> json option" where
  "field k (JObj kvs) = map_of kvs k"
| "field k JNull = None"
| "field k (JBool b) = None"
| "field k (JInt i) = None"
| "field k (JStr s) = None"
| "field k (JList xs) = None"

definition is_tool_use :: "json \<Rightarrow> bool" where
  "is_tool_use b = (field ''type'' b = Some (JStr ''tool_use''))"

text \<open>Reading a field of a field.\<close>

definition nested_field :: "string \<Rightarrow> string \<Rightarrow> json \<Rightarrow> json option" where
  "nested_field outer inner j = (case field outer j of None \<Rightarrow> None | Some v \<Rightarrow> field inner v)"

text \<open>
  A parser for examples: its state is the script of what the next calls of
  \<^verbatim>\<open>feed\<close> return (an exhausted script decodes nothing), \<^verbatim>\<open>get_tool_calls\<close>
  returns a fixed list, the extractor is given, \<^verbatim>\<open>json.loads\<close> decodes the
  empty object and rejects every other text with \<^verbatim>\<open>JSONDecodeError\<close>, and the
  clock stands still.
\<close>

definition scripted_env ::
  "(exn + event list) list \<Rightarrow> (exn + tool_call list) \<Rightarrow> (string \<Rightarrow> json dict list)
     \<Rightarrow> (exn + event list) list env" where
  "scripted_env script deferred extract =
     \<lparr>new_parser = script,
      feed = (\<lambda>p chunk. case p of
                [] \<Rightarrow> Inr ([], [])
              | Inl e # rest \<Rightarrow> Inl e
              | Inr evs # rest \<Rightarrow> Inr (evs, rest)),
      get_tool_calls = (\<lambda>p. deferred),
      parse_bracket_tool_calls = extract,
      generate_completion_id = ''0'',
      json_loads = (\<lambda>s. if s = ''{}'' then Inr (JObj []) else Inl DecodeError),
      time_ms = (\<lambda>n. 0)\<rparr>"

text \<open>
  The first conversion of a list of parser tool calls that raises, if any.
\<close>

fun conversion_failure :: "'p env \<Rightarrow> tool_call list \<Rightarrow> exn option" where
  "conversion_failure env [] = None"
| "conversion_failure env (tool_call # rest) =
     (case parse_arguments env tool_call of
        Inl e \<Rightarrow> Some e
      | Inr arguments \<Rightarrow> conversion_failure env rest)"

text \<open>
  The failure of record production, if any: the exception of the read or of
  \<^verbatim>\<open>parser.feed\<close>, or else the one of \<^verbatim>\<open>parser.get_tool_calls\<close>, or else the
  one of the conversion of a parser tool call.
\<close>

definition production_failure :: "'p env \<Rightarrow> response \<Rightarrow> exn option" where
  "production_failure env resp =
     (case records env (new_parser env) resp of
        (evs, Inl e) \<Rightarrow> Some e
      | (evs, Inr p) \<Rightarrow>
          (case get_tool_calls env p of
             Inl e \<Rightarrow> Some e
           | Inr tcs \<Rightarrow> conversion_failure env tcs))"

subsection \<open>Example translations\<close>

text \<open>An extractor that finds no marker in any text.\<close>

definition no_markers :: "string \<Rightarrow> json dict list" where
  "no_markers content = []"

text \<open>One text record decoded from the first chunk; the second chunk does not decode.\<close>

definition broken_env :: "(exn + event list) list env" where
  "broken_env =
     scripted_env [Inr [ContentEvent (Some ''Hi'')], Inl (Exn ''boom'')] (Inr []) no_markers"

text \<open>
  An extractor that finds one invocation of \<open>search\<close>, without arguments, in the
  text \<^verbatim>\<open>[tool_call:search{}]\<close> and nothing in any other text.
\<close>

definition one_marker :: "string \<Rightarrow> json dict list" where
  "one_marker content =
     (if content = ''[tool_call:search{}]''
      then [[(''name'', JStr ''search''), (''arguments'', JObj [])]] else [])"

text \<open>The greeting of the scenario, decoded from two chunks.\<close>

definition hello_env :: "(exn + event list) list env" where
  "hello_env =
     scripted_env
       [Inr [ContentEvent (Some ''Hello '')],
        Inr [ContentEvent (Some ''world''),
             MetadataEvent (Some [(''usage'', [(''inputTokens'', 5), (''outputTokens'', 2)])])]]
       (Inr []) no_markers"

text \<open>One record that is a marker, and nothing else.\<close>

definition marker_env :: "(exn + event list) list env" where
  "marker_env =
     scripted_env [Inr [ContentEvent (Some ''[tool_call:search{}]'')]] (Inr []) one_marker"

text \<open>A response that decodes to one metadata record and nothing else.\<close>

definition metadata_only_env :: "(exn + event list) list env" where
  "metadata_only_env =
     scripted_env
       [Inr [MetadataEvent (Some [(''usage'', [(''inputTokens'', 5), (''outputTokens'', 0)])])]]
       (Inr []) no_markers"

text \<open>A response that decodes to one content record with empty text.\<close>

definition empty_content_env :: "(exn + event list) list env" where
  "empty_content_env = scripted_env [Inr [ContentEvent (Some [])]] (Inr []) no_markers"

text \<open>
  Two metadata records around a text record; the second one has no
  \<^verbatim>\<open>outputTokens\<close>.
\<close>

definition two_metadata_env :: "(exn + event list) list env" where
  "two_metadata_env =
     scripted_env
       [Inr [MetadataEvent (Some [(''usage'', [(''inputTokens'', 5), (''outputTokens'', 2)])]),
             ContentEvent (Some ''Hi''),
             MetadataEvent (Some [(''usage'', [(''inputTokens'', 7)])])]]
       (Inr []) no_markers"

text \<open>
  After one text record the parser returns one tool call whose argument text is not
  JSON.
\<close>

definition malformed_env :: "(exn + event list) list env" where
  "malformed_env =
     scripted_env [Inr [ContentEvent (Some ''Hi'')]]
       (Inr [[(''function'', [(''name'', JStr ''search''), (''arguments'', JStr ''{bad'')])]])
       one_marker"

text \<open>
  A text of 2000 opening brackets. It is not JSON, and \<^verbatim>\<open>json.loads\<close> gives up on
  it with \<^verbatim>\<open>RecursionError\<close>, which is not a \<^verbatim>\<open>ValueError\<close>. In the example
  the parser returns, after one text record, one tool call with this argument text.
\<close>

definition deep_text :: string where
  "deep_text = replicate 2000 (CHR ''['')"

definition deep_loads :: "string \<Rightarrow> loads_error + json" where
  "deep_loads s =
     (if s = deep_text then Inl (OtherError (Exn ''maximum recursion depth exceeded''))
      else if s = ''{}'' then Inr (JObj [])
      else Inl DecodeError)"

definition deep_env :: "(exn + event list) list env" where
  "deep_env =
     (scripted_env [Inr [ContentEvent (Some ''Hi'')]]
        (Inr [[(''function'', [(''name'', JStr ''search''), (''arguments'', JStr deep_text)])]])
        no_markers)\<lparr>json_loads := deep_loads\<rparr>"

text \<open>After one text record the parser returns one well-formed tool call.\<close>

definition deferred_env :: "(exn + event list) list env" where
  "deferred_env =
     scripted_env [Inr [ContentEvent (Some ''Hi'')]]
       (Inr [[(''function'', [(''name'', JStr ''search''), (''arguments'', JStr ''{}'')])]])
       no_markers"

text \<open>A text record followed by a record that is a marker.\<close>

definition text_then_marker_env :: "(exn + event list) list env" where
  "text_then_marker_env =
     scripted_env
       [Inr [ContentEvent (Some ''Hello''), ContentEvent (Some ''[tool_call:search{}]'')]]
       (Inr []) one_marker"

text \<open>
  The index of a frame that starts a \<^verbatim>\<open>tool_use\<close> block, and the indices of all
  such frames of a run, in the order of emission.
\<close>

fun tool_use_start_index :: "frame \<Rightarrow> int option" where
  "tool_use_start_index (name, payload) =
     (if name = ''content_block_start'' then
        (case (field ''index'' payload, field ''content_block'' payload) of
           (Some (JInt i), Some b) \<Rightarrow> if is_tool_use b then Some i else None
         | _ \<Rightarrow> None)
      else None)"

definition tool_use_indices :: "frame list \<Rightarrow> int list" where
  "tool_use_indices fs = List.map_filter tool_use_start_index fs"

text \<open>
  A list of indices that is strictly increasing and lies between two values of the
  counter.
\<close>

definition increasing_between :: "int \<Rightarrow> int \<Rightarrow> int list \<Rightarrow> bool" where
  "increasing_between lo hi xs \<longleftrightarrow>
     sorted_wrt (<) xs \<and> list_all (\<lambda>i. lo \<le> i \<and> i < hi) xs \<and> lo \<le> hi"


section \<open>Properties\<close>

subsection \<open>The loops depend on the record sequence only\<close>

lemma handle_events_append:
  "handle_events env rid model s (xs @ ys) =
     (fst (handle_events env rid model s xs)
        @ fst (handle_events env rid model (snd (handle_events env rid model s xs)) ys),
      snd (handle_events env rid model (snd (handle_events env rid model s xs)) ys))"
  by (induction xs arbitrary: s) (simp_all add: split_beta Let_def)

lemma read_loop_records:
  "read_loop env rid model p s resp =
     (fst (handle_events env rid model s (fst (records env p resp))),
      case snd (records env p resp) of
        Inl e \<Rightarrow> Inl e
      | Inr p' \<Rightarrow> Inr (p', snd (handle_events env rid model s (fst (records env p resp)))))"
proof (induction resp arbitrary: p s)
  case EndOfStream
  show ?case by simp
next
  case (ReadError e)
  show ?case by simp
next
  case (Chunk chunk rest)
  show ?case
  proof (cases "chunk = []")
    case True
    then show ?thesis using Chunk.IH by (simp cong: sum.case_cong)
  next
    case False
    show ?thesis
    proof (cases "feed env p chunk")
      case (Inl e)
      then show ?thesis using False by simp
    next
      case (Inr r)
      obtain events p' where r: "r = (events, p')" by (cases r)
      show ?thesis
        using False Inr r Chunk.IH [of p' "snd (handle_events env rid model s events)"]
        by (simp add: split_beta Let_def handle_events_append split: sum.splits)
    qed
  qed
qed

lemma collect_events_append:
  "collect_events env s (xs @ ys) = collect_events env (collect_events env s xs) ys"
  by (induction xs arbitrary: s) simp_all

lemma collect_loop_records:
  "collect_loop env p s resp =
     (case snd (records env p resp) of
        Inl e \<Rightarrow> Inl e
      | Inr p' \<Rightarrow> Inr (collect_events env s (fst (records env p resp))))"
proof (induction resp arbitrary: p s)
  case EndOfStream
  show ?case by simp
next
  case (ReadError e)
  show ?case by simp
next
  case (Chunk chunk rest)
  show ?case
  proof (cases "chunk = []")
    case True
    then show ?thesis using Chunk.IH by (simp cong: sum.case_cong)
  next
    case False
    show ?thesis
    proof (cases "feed env p chunk")
      case (Inl e)
      then show ?thesis using False by simp
    next
      case (Inr r)
      obtain events p' where r: "r = (events, p')" by (cases r)
      show ?thesis
        using False Inr r Chunk.IH [of p' "collect_events env s events"]
        by (simp add: split_beta Let_def collect_events_append split: sum.splits)
    qed
  qed
qed

subsection \<open>What the tool-call loops change\<close>

lemma emit_inline_counters:
  "accumulated_text (snd (emit_inline_tool_calls env s tcs)) = accumulated_text s"
  "input_tokens (snd (emit_inline_tool_calls env s tcs)) = input_tokens s"
  "output_tokens (snd (emit_inline_tool_calls env s tcs)) = output_tokens s"
  "message_started (snd (emit_inline_tool_calls env s tcs)) = message_started s"
  by (induction tcs arbitrary: s; simp add: split_beta Let_def)+

lemma emit_inline_tool_uses_Nil:
  "tool_uses (snd (emit_inline_tool_calls env s tcs)) = [] \<longleftrightarrow> tool_uses s = [] \<and> tcs = []"
  by (induction tcs arbitrary: s) (simp_all add: split_beta Let_def)

lemma emit_inline_names:
  "frame_name ` set (fst (emit_inline_tool_calls env s tcs))
     \<subseteq> {''content_block_start'', ''content_block_stop''}"
  by (induction tcs arbitrary: s)
     (simp_all add: split_beta Let_def frame_name_def block_start_frame_def block_stop_frame_def)


lemma emit_parser_names:
  "frame_name ` set (fst (emit_parser_tool_calls env s tcs))
     \<subseteq> {''content_block_start'', ''content_block_stop''}"
  by (induction tcs arbitrary: s)
     (simp_all add: split_beta Let_def frame_name_def block_start_frame_def block_stop_frame_def
        split: sum.splits)

lemma emit_parser_fails:
  assumes "conversion_failure env tcs = Some e"
  shows "snd (emit_parser_tool_calls env s tcs) = Inl e"
  using assms
  by (induction tcs arbitrary: s) (simp_all add: split_beta Let_def split: sum.splits)

lemma emit_parser_completes:
  assumes "conversion_failure env tcs = None"
  shows "\<exists>s'. snd (emit_parser_tool_calls env s tcs) = Inr s'
           \<and> accumulated_text s' = accumulated_text s
           \<and> input_tokens s' = input_tokens s
           \<and> output_tokens s' = output_tokens s
           \<and> (tool_uses s' = [] \<longleftrightarrow> tool_uses s = [] \<and> tcs = [])"
  using assms
proof (induction tcs arbitrary: s)
  case Nil
  show ?case by simp
next
  case (Cons tc tcs)
  obtain arguments where a: "parse_arguments env tc = Inr arguments"
    using Cons.prems by (cases "parse_arguments env tc") simp_all
  then have rest: "conversion_failure env tcs = None"
    using Cons.prems by simp
  let ?s2 = "s\<lparr>tool_uses := tool_uses s @ [parser_tool_use env s tc arguments],
               current_tool_index := current_tool_index s + 1\<rparr>"
  from Cons.IH [OF rest, of ?s2] show ?case
    using a by (auto simp add: split_beta Let_def)
qed


subsection \<open>What one event changes\<close>

lemma handle_event_tool_uses_Nil:
  "tool_uses (snd (handle_event env rid model s ev)) = []
     \<longleftrightarrow> tool_uses s = [] \<and> inline_calls env ev = []"
  by (cases ev)
     (simp_all add: handle_event_def handle_content_def content_of_def split_beta Let_def
        emit_inline_tool_uses_Nil)

lemma handle_event_names:
  "frame_name ` set (fst (handle_event env rid model s ev))
     \<subseteq> {''message_start'', ''content_block_start'', ''content_block_stop'',
         ''content_block_delta''}"
proof (cases ev)
  case (ContentEvent d)
  have "frame_name ` set (fst (emit_inline_tool_calls env s' tcs))
          \<subseteq> {''message_start'', ''content_block_start'', ''content_block_stop'',
              ''content_block_delta''}" for s' tcs
    using emit_inline_names [of env s' tcs] by blast
  then show ?thesis
    using ContentEvent
    by (auto simp add: handle_event_def handle_content_def split_beta Let_def frame_name_def
          message_start_frame_def block_start_frame_def text_delta_frame_def
          split: if_splits)
next
  case (MetadataEvent m)
  then show ?thesis by (simp add: handle_event_def)
next
  case OtherEvent
  then show ?thesis by (simp add: handle_event_def)
qed

lemma handle_events_tool_uses_Nil:
  "tool_uses (snd (handle_events env rid model s evs)) = []
     \<longleftrightarrow> tool_uses s = [] \<and> inline_invocations env evs = []"
  by (induction evs arbitrary: s)
     (auto simp add: split_beta Let_def handle_event_tool_uses_Nil inline_invocations_def)

lemma handle_events_names:
  "frame_name ` set (fst (handle_events env rid model s evs))
     \<subseteq> {''message_start'', ''content_block_start'', ''content_block_stop'',
         ''content_block_delta''}"
proof (induction evs arbitrary: s)
  case Nil
  show ?case by simp
next
  case (Cons ev evs)
  show ?case
    using handle_event_names [of env rid model s ev]
      Cons.IH [of "snd (handle_event env rid model s ev)"]
    by (simp add: split_beta Let_def image_Un)
qed

subsection \<open>The generator in terms of the record sequence\<close>

lemma stream_by_records:
  assumes "records env (new_parser env) resp = (evs, r)"
  shows "stream_kiro_to_anthropic env resp model request_id =
     (let hs = handle_events env (resolve_request_id env request_id) model init_stream_state evs
      in case r of
           Inl e \<Rightarrow> (fst hs @ [error_frame e], Raised e)
         | Inr p \<Rightarrow>
             (case finish env p (snd hs) of
                (out', Inl e) \<Rightarrow> (fst hs @ out' @ [error_frame e], Raised e)
              | (out', Inr s') \<Rightarrow> (fst hs @ out', Returned)))"
  unfolding stream_kiro_to_anthropic_def read_loop_records
  using assms by (simp add: Let_def split: sum.splits)

lemma finish_drain_fails:
  assumes "get_tool_calls env p = Inl e"
  shows "finish env p s = (if accumulated_text s \<noteq> [] then [block_stop_frame 0] else [], Inl e)"
  using assms by (simp add: finish_def)


lemma finish_conversion_fails:
  assumes "get_tool_calls env p = Inr tcs" and "conversion_failure env tcs = Some e"
  shows "finish env p s =
     ((if accumulated_text s \<noteq> [] then [block_stop_frame 0] else [])
        @ fst (emit_parser_tool_calls env s tcs),
      Inl e)"
  using assms(1) emit_parser_fails [OF assms(2), of s]
  by (cases "emit_parser_tool_calls env s tcs") (simp add: finish_def)

lemma finish_drain_ok:
  assumes "get_tool_calls env p = Inr tcs" and "conversion_failure env tcs = None"
  shows "\<exists>s'. finish env p s =
     ((if accumulated_text s \<noteq> [] then [block_stop_frame 0] else [])
        @ fst (emit_parser_tool_calls env s tcs)
        @ [message_delta_frame
             (if tool_uses s \<noteq> [] \<or> tcs \<noteq> [] then ''tool_use'' else ''end_turn'')
             (output_tokens s),
           message_stop_frame],
      Inr s')"
proof -
  obtain s' where s': "snd (emit_parser_tool_calls env s tcs) = Inr s'"
    "output_tokens s' = output_tokens s"
    "tool_uses s' = [] \<longleftrightarrow> tool_uses s = [] \<and> tcs = []"
    using emit_parser_completes [OF assms(2), of s] by blast
  show ?thesis
    using assms(1) s'
    by (cases "emit_parser_tool_calls env s tcs") (auto simp add: finish_def Let_def)
qed

lemma stream_completed:
  assumes "records env (new_parser env) resp = (evs, Inr p)"
    and "get_tool_calls env p = Inr tcs"
    and "conversion_failure env tcs = None"
  shows "stream_kiro_to_anthropic env resp model request_id =
     (let hs = handle_events env (resolve_request_id env request_id) model init_stream_state evs
      in (fst hs
            @ (if accumulated_text (snd hs) \<noteq> [] then [block_stop_frame 0] else [])
            @ fst (emit_parser_tool_calls env (snd hs) tcs)
            @ [message_delta_frame
                 (if inline_invocations env evs \<noteq> [] \<or> tcs \<noteq> [] then ''tool_use''
                  else ''end_turn'')
                 (output_tokens (snd hs)),
               message_stop_frame],
          Returned))"
proof -
  let ?hs = "handle_events env (resolve_request_id env request_id) model init_stream_state evs"
  have uses: "tool_uses (snd ?hs) \<noteq> [] \<longleftrightarrow> inline_invocations env evs \<noteq> []"
    by (simp add: handle_events_tool_uses_Nil init_stream_state_def)
  obtain s' where "finish env p (snd ?hs) =
     ((if accumulated_text (snd ?hs) \<noteq> [] then [block_stop_frame 0] else [])
        @ fst (emit_parser_tool_calls env (snd ?hs) tcs)
        @ [message_delta_frame
             (if tool_uses (snd ?hs) \<noteq> [] \<or> tcs \<noteq> [] then ''tool_use'' else ''end_turn'')
             (output_tokens (snd ?hs)),
           message_stop_frame],
      Inr s')"
    using finish_drain_ok [OF assms(2,3), of "snd ?hs"] by blast
  then show ?thesis
    using uses by (simp add: stream_by_records [OF assms(1)] Let_def)
qed

lemma stream_without_parser_calls:
  assumes "records env (new_parser env) resp = (evs, Inr p)"
    and "get_tool_calls env p = Inr []"
  shows "stream_kiro_to_anthropic env resp model request_id =
     (let hs = handle_events env (resolve_request_id env request_id) model init_stream_state evs
      in (fst hs
            @ (if accumulated_text (snd hs) \<noteq> [] then [block_stop_frame 0] else [])
            @ [message_delta_frame
                 (if inline_invocations env evs \<noteq> [] then ''tool_use'' else ''end_turn'')
                 (output_tokens (snd hs)),
               message_stop_frame],
          Returned))"
proof -
  have "conversion_failure env [] = None" by simp
  from stream_completed [OF assms this] show ?thesis by (simp add: Let_def)
qed


lemma error_not_among:
  assumes "A \<subseteq> {''message_start'', ''content_block_start'', ''content_block_stop'',
         ''content_block_delta''}"
  shows "''error'' \<notin> A" and "''message_delta'' \<notin> A" and "''message_stop'' \<notin> A"
  using assms by auto


subsection \<open>Failures\<close>

lemma error_frame_payload:
  "error_frame e =
     (''error'',
      JObj [(''type'', JStr ''error''),
            (''error'', JObj [(''type'', JStr ''api_error''),
                              (''message'', JStr (exn_message e))])])"
  by (cases e) (simp add: error_frame_def)

lemma stream_failed:
  assumes "production_failure env resp = Some e"
  shows "snd (stream_kiro_to_anthropic env resp model request_id) = Raised e \<and>
         (\<exists>pre. fst (stream_kiro_to_anthropic env resp model request_id) = pre @ [error_frame e]
                \<and> frame_name ` set pre
                    \<subseteq> {''message_start'', ''content_block_start'', ''content_block_stop'',
                        ''content_block_delta''})"
proof -
  obtain evs r where rec: "records env (new_parser env) resp = (evs, r)"
    by (cases "records env (new_parser env) resp")
  let ?A = "{''message_start'', ''content_block_start'', ''content_block_stop'',
             ''content_block_delta''}"
  let ?hs = "handle_events env (resolve_request_id env request_id) model init_stream_state evs"
  let ?stop = "if accumulated_text (snd ?hs) \<noteq> [] then [block_stop_frame 0] else []"
  have names: "frame_name ` set (fst ?hs) \<subseteq> ?A"
    by (rule handle_events_names)
  have stop: "frame_name ` set ?stop \<subseteq> ?A"
    by (auto simp add: frame_name_def block_stop_frame_def)
  show ?thesis
  proof (cases r)
    case (Inl e')
    then have "e' = e" using assms rec by (simp add: production_failure_def)
    then show ?thesis
      using names Inl by (simp add: stream_by_records [OF rec] Let_def)
  next
    case (Inr p)
    show ?thesis
    proof (cases "get_tool_calls env p")
      case (Inl e')
      then have drain: "get_tool_calls env p = Inl e"
        using assms rec Inr by (simp add: production_failure_def)
      have "fst (stream_kiro_to_anthropic env resp model request_id) =
              (fst ?hs @ ?stop) @ [error_frame e]"
        and "snd (stream_kiro_to_anthropic env resp model request_id) = Raised e"
        using Inr
        by (simp_all add: stream_by_records [OF rec] finish_drain_fails [OF drain] Let_def)
      moreover have "frame_name ` set (fst ?hs @ ?stop) \<subseteq> ?A"
        using names stop by (simp add: image_Un)
      ultimately show ?thesis by blast
    next
      case drain: (Inr tcs)
      then have conv: "conversion_failure env tcs = Some e"
        using assms rec Inr by (simp add: production_failure_def)
      let ?calls = "fst (emit_parser_tool_calls env (snd ?hs) tcs)"
      have calls: "frame_name ` set ?calls \<subseteq> ?A"
        using emit_parser_names [of env "snd ?hs" tcs] by blast
      have "fst (stream_kiro_to_anthropic env resp model request_id) =
              (fst ?hs @ ?stop @ ?calls) @ [error_frame e]"
        and "snd (stream_kiro_to_anthropic env resp model request_id) = Raised e"
        using Inr
        by (simp_all add: stream_by_records [OF rec] finish_conversion_fails [OF drain conv]
              Let_def)
      moreover have "frame_name ` set (fst ?hs @ ?stop @ ?calls) \<subseteq> ?A"
        using names stop calls by (simp add: image_Un)
      ultimately show ?thesis by blast
    qed
  qed
qed

text \<open>
  Claim C7. In streaming mode, when record production fails with an exception (in the
  read, in the decoder's feed, in its end-of-stream drain or in the conversion of a
  drained tool call), the generator ends by re-raising that exception, and the last
  frame it yields before that is an event named \<^verbatim>\<open>error\<close> whose payload has type
  \<^verbatim>\<open>error\<close> and carries, under \<^verbatim>\<open>error\<close>, the type \<^verbatim>\<open>api_error\<close> and the
  exception's text as the message; no other frame of the run is an error event. This
  holds whether or not \<^verbatim>\<open>message_start\<close> has been yielded.
\<close>

theorem stream_error_event:
  assumes "production_failure env resp = Some e"
  shows "snd (stream_kiro_to_anthropic env resp model request_id) = Raised e \<and>
         (\<exists>pre payload.
            fst (stream_kiro_to_anthropic env resp model request_id) = pre @ [(''error'', payload)]
            \<and> field ''type'' payload = Some (JStr ''error'')
            \<and> nested_field ''error'' ''type'' payload = Some (JStr ''api_error'')
            \<and> nested_field ''error'' ''message'' payload = Some (JStr (exn_message e))
            \<and> ''error'' \<notin> frame_name ` set pre)"
proof -
  let ?payload = "JObj [(''type'', JStr ''error''),
            (''error'', JObj [(''type'', JStr ''api_error''),
                              (''message'', JStr (exn_message e))])]"
  obtain pre where pre:
    "fst (stream_kiro_to_anthropic env resp model request_id) = pre @ [error_frame e]"
    "frame_name ` set pre
       \<subseteq> {''message_start'', ''content_block_start'', ''content_block_stop'',
           ''content_block_delta''}"
    using stream_failed [OF assms, of model request_id] by blast
  have "fst (stream_kiro_to_anthropic env resp model request_id) = pre @ [(''error'', ?payload)]"
    using pre(1) by (simp add: error_frame_payload)
  moreover have "field ''type'' ?payload = Some (JStr ''error'')"
    and "nested_field ''error'' ''type'' ?payload = Some (JStr ''api_error'')"
    and "nested_field ''error'' ''message'' ?payload = Some (JStr (exn_message e))"
    by (simp_all add: nested_field_def)
  moreover have "''error'' \<notin> frame_name ` set pre"
    by (rule error_not_among(1) [OF pre(2)])
  moreover have "snd (stream_kiro_to_anthropic env resp model request_id) = Raised e"
    using stream_failed [OF assms, of model request_id] by blast
  ultimately show ?thesis by blast
qed

theorem stream_error_event_witness:
  "production_failure broken_env (Chunk ''a'' (Chunk ''b'' EndOfStream)) = Some (Exn ''boom'') \<and>
   stream_kiro_to_anthropic broken_env (Chunk ''a'' (Chunk ''b'' EndOfStream)) ''m'' (Some ''r'') =
     ([message_start_frame ''r'' ''m'', block_start_frame 0 (text_block []),
       text_delta_frame ''Hi'',
       (''error'',
        JObj [(''type'', JStr ''error''),
              (''error'', JObj [(''type'', JStr ''api_error''), (''message'', JStr ''boom'')])])],
      Raised (Exn ''boom''))"
proof -
  have f: "production_failure broken_env (Chunk ''a'' (Chunk ''b'' EndOfStream)) = Some (Exn ''boom'')"
    by (simp add: production_failure_def broken_env_def scripted_env_def)
  have s: "stream_kiro_to_anthropic broken_env (Chunk ''a'' (Chunk ''b'' EndOfStream)) ''m'' (Some ''r'') =
     ([message_start_frame ''r'' ''m'', block_start_frame 0 (text_block []),
       text_delta_frame ''Hi'',
       (''error'',
        JObj [(''type'', JStr ''error''),
              (''error'', JObj [(''type'', JStr ''api_error''), (''message'', JStr ''boom'')])])],
      Raised (Exn ''boom''))"
    by (simp add: stream_kiro_to_anthropic_def broken_env_def scripted_env_def no_markers_def
          resolve_request_id_def init_stream_state_def handle_event_def handle_content_def
          error_frame_def Let_def)
  from stream_error_event [OF f, of "''m''" "Some ''r''"] f s show ?thesis by simp
qed


subsection \<open>The end of a completed translation\<close>

lemma handle_content_tokens:
  "input_tokens (snd (handle_content env rid model s d)) = input_tokens s"
  "output_tokens (snd (handle_content env rid model s d)) = output_tokens s"
  by (simp_all add: handle_content_def split_beta Let_def emit_inline_counters)

lemma handle_events_tokens:
  "input_tokens (snd (handle_events env rid model s evs)) =
     (if usages evs = [] then input_tokens s
      else dict_get (last (usages evs)) ''inputTokens'' 0)"
  "output_tokens (snd (handle_events env rid model s evs)) =
     (if usages evs = [] then output_tokens s
      else dict_get (last (usages evs)) ''outputTokens'' 0)"
proof (induction evs arbitrary: s)
  case Nil
  { case 1 show ?case by simp }
  { case 2 show ?case by simp }
next
  case (Cons ev evs)
  { case 1 show ?case
      by (cases ev) (simp_all add: Cons.IH(1) split_beta Let_def handle_event_def handle_content_tokens) }
  { case 2 show ?case
      by (cases ev) (simp_all add: Cons.IH(2) split_beta Let_def handle_event_def handle_content_tokens) }
qed

lemma handle_events_final_usage:
  "output_tokens (snd (handle_events env rid model init_stream_state evs)) =
     dict_get (final_usage evs) ''outputTokens'' 0"
  by (simp add: handle_events_tokens final_usage_def init_stream_state_def dict_get_def)


lemma message_delta_payload:
  "message_delta_frame reason n =
     (''message_delta'',
      JObj [(''type'', JStr ''message_delta''),
            (''delta'', JObj [(''stop_reason'', JStr reason), (''stop_sequence'', JNull)]),
            (''usage'', JObj [(''output_tokens'', JInt n)])])"
  "message_stop_frame = (''message_stop'', JObj [(''type'', JStr ''message_stop'')])"
  by (simp_all add: message_delta_frame_def message_stop_frame_def)

lemma stream_completed_names:
  assumes "records env (new_parser env) resp = (evs, Inr p)"
    and "get_tool_calls env p = Inr tcs"
    and "conversion_failure env tcs = None"
  shows "\<exists>pre. fst (stream_kiro_to_anthropic env resp model request_id) =
            pre @ [message_delta_frame
                     (if inline_invocations env evs \<noteq> [] \<or> tcs \<noteq> [] then ''tool_use''
                      else ''end_turn'')
                     (dict_get (final_usage evs) ''outputTokens'' 0),
                   message_stop_frame]
          \<and> frame_name ` set pre
               \<subseteq> {''message_start'', ''content_block_start'', ''content_block_stop'',
                   ''content_block_delta''}"
proof -
  let ?A = "{''message_start'', ''content_block_start'', ''content_block_stop'',
             ''content_block_delta''}"
  let ?hs = "handle_events env (resolve_request_id env request_id) model init_stream_state evs"
  let ?stop = "if accumulated_text (snd ?hs) \<noteq> [] then [block_stop_frame 0] else []"
  let ?calls = "fst (emit_parser_tool_calls env (snd ?hs) tcs)"
  have a: "frame_name ` set (fst ?hs) \<subseteq> ?A"
    by (rule handle_events_names)
  have b: "frame_name ` set ?calls \<subseteq> ?A"
    using emit_parser_names [of env "snd ?hs" tcs] by blast
  have c: "frame_name ` set ?stop \<subseteq> ?A"
    by (auto simp add: frame_name_def block_stop_frame_def)
  have "frame_name ` set (fst ?hs @ ?stop @ ?calls) \<subseteq> ?A"
    using a b c by (simp add: image_Un)
  moreover have "fst (stream_kiro_to_anthropic env resp model request_id) =
     (fst ?hs @ ?stop @ ?calls)
       @ [message_delta_frame
            (if inline_invocations env evs \<noteq> [] \<or> tcs \<noteq> [] then ''tool_use''
             else ''end_turn'')
            (dict_get (final_usage evs) ''outputTokens'' 0),
          message_stop_frame]"
    by (simp add: stream_completed [OF assms] Let_def handle_events_final_usage)
  ultimately show ?thesis by blast
qed

text \<open>
  Claim C5. In streaming mode, a translation that completes ends with one event named
  \<^verbatim>\<open>message_delta\<close> followed by \<^verbatim>\<open>message_stop\<close>; the
  \<^verbatim>\<open>stop_reason\<close> under \<^verbatim>\<open>delta\<close> in the payload of that
  \<^verbatim>\<open>message_delta\<close> is \<^verbatim>\<open>tool_use\<close> when the extractor found an invocation in
  some content record or the parser returned a tool call at the end of the stream, and
  \<^verbatim>\<open>end_turn\<close> otherwise. No earlier frame is a \<^verbatim>\<open>message_delta\<close>.
\<close>

theorem stream_stop_reason:
  assumes "records env (new_parser env) resp = (evs, Inr p)"
    and "get_tool_calls env p = Inr tcs"
    and "conversion_failure env tcs = None"
  shows "\<exists>pre payload.
           fst (stream_kiro_to_anthropic env resp model request_id) =
             pre @ [(''message_delta'', payload),
                    (''message_stop'', JObj [(''type'', JStr ''message_stop'')])]
           \<and> nested_field ''delta'' ''stop_reason'' payload =
               Some (JStr (if inline_invocations env evs \<noteq> [] \<or> tcs \<noteq> [] then ''tool_use''
                           else ''end_turn''))
           \<and> ''message_delta'' \<notin> frame_name ` set pre"
proof -
  let ?reason = "if inline_invocations env evs \<noteq> [] \<or> tcs \<noteq> [] then ''tool_use''
                 else ''end_turn''"
  let ?payload = "JObj [(''type'', JStr ''message_delta''),
            (''delta'', JObj [(''stop_reason'', JStr ?reason), (''stop_sequence'', JNull)]),
            (''usage'', JObj [(''output_tokens'', JInt (dict_get (final_usage evs) ''outputTokens'' 0))])]"
  obtain pre where pre:
    "fst (stream_kiro_to_anthropic env resp model request_id) =
       pre @ [message_delta_frame ?reason (dict_get (final_usage evs) ''outputTokens'' 0),
              message_stop_frame]"
    "frame_name ` set pre
       \<subseteq> {''message_start'', ''content_block_start'', ''content_block_stop'',
           ''content_block_delta''}"
    using stream_completed_names [OF assms, of model request_id] by blast
  have "fst (stream_kiro_to_anthropic env resp model request_id) =
          pre @ [(''message_delta'', ?payload),
                 (''message_stop'', JObj [(''type'', JStr ''message_stop'')])]"
    using pre(1) by (simp add: message_delta_payload)
  moreover have "nested_field ''delta'' ''stop_reason'' ?payload = Some (JStr ?reason)"
    by (simp add: nested_field_def)
  moreover have "''message_delta'' \<notin> frame_name ` set pre"
    by (rule error_not_among(2) [OF pre(2)])
  ultimately show ?thesis by blast
qed

theorem stream_stop_reason_witness:
  "records marker_env (new_parser marker_env) (Chunk ''x'' EndOfStream) =
     ([ContentEvent (Some ''[tool_call:search{}]'')], Inr []) \<and>
   get_tool_calls marker_env [] = Inr [] \<and>
   conversion_failure marker_env [] = None \<and>
   inline_invocations marker_env [ContentEvent (Some ''[tool_call:search{}]'')] \<noteq> [] \<and>
   (\<exists>pre payload.
      fst (stream_kiro_to_anthropic marker_env (Chunk ''x'' EndOfStream) ''m'' None) =
        pre @ [(''message_delta'', payload),
               (''message_stop'', JObj [(''type'', JStr ''message_stop'')])]
      \<and> nested_field ''delta'' ''stop_reason'' payload = Some (JStr ''tool_use'')
      \<and> ''message_delta'' \<notin> frame_name ` set pre)"
proof -
  have r: "records marker_env (new_parser marker_env) (Chunk ''x'' EndOfStream) =
     ([ContentEvent (Some ''[tool_call:search{}]'')], Inr [])"
    by (simp add: marker_env_def scripted_env_def)
  have g: "get_tool_calls marker_env [] = Inr []"
    by (simp add: marker_env_def scripted_env_def)
  have c: "conversion_failure marker_env [] = None"
    by simp
  have i: "inline_invocations marker_env [ContentEvent (Some ''[tool_call:search{}]'')] \<noteq> []"
    by (simp add: inline_invocations_def content_of_def marker_env_def scripted_env_def one_marker_def)
  from stream_stop_reason [OF r g c, of "''m''" None] r g c i show ?thesis by simp
qed


subsection \<open>Translations without text and without tool calls\<close>

lemma handle_event_silent:
  assumes "\<not> has_text ev" and "inline_calls env ev = []"
  shows "fst (handle_event env rid model s ev) =
           (if is_content ev \<and> \<not> message_started s then [message_start_frame rid model] else [])"
    and "accumulated_text (snd (handle_event env rid model s ev)) = accumulated_text s"
    and "message_started (snd (handle_event env rid model s ev)) \<longleftrightarrow>
           message_started s \<or> is_content ev"
  using assms
  by (cases ev; simp add: handle_event_def handle_content_def content_of_def split_beta Let_def)+

lemma handle_events_silent:
  assumes "filter has_text evs = []" and "inline_invocations env evs = []"
  shows "fst (handle_events env rid model s evs) =
           (if list_ex is_content evs \<and> \<not> message_started s then [message_start_frame rid model]
            else [])
         \<and> accumulated_text (snd (handle_events env rid model s evs)) = accumulated_text s"
  using assms
proof (induction evs arbitrary: s)
  case Nil
  show ?case by simp
next
  case (Cons ev evs)
  have ev: "\<not> has_text ev" "inline_calls env ev = []"
    and evs: "filter has_text evs = []" "inline_invocations env evs = []"
    using Cons.prems by (auto simp add: inline_invocations_def split: if_splits)
  show ?case
    using Cons.IH [OF evs, of "snd (handle_event env rid model s ev)"]
    by (auto simp add: split_beta Let_def handle_event_silent [OF ev])
qed

text \<open>
  Claim C4, as amended. In streaming mode, when the translation completes, no content
  record has text, the extractor finds no invocation and the parser returns no tool
  call, the frames are: \<^verbatim>\<open>message_start\<close> if at least one content record was
  decoded (and not otherwise), then \<^verbatim>\<open>message_delta\<close> with stop reason
  \<^verbatim>\<open>end_turn\<close>, then \<^verbatim>\<open>message_stop\<close>; there are no content-block frames.
\<close>

theorem stream_without_content_blocks:
  assumes "records env (new_parser env) resp = (evs, Inr p)"
    and "get_tool_calls env p = Inr []"
    and "filter has_text evs = []"
    and "inline_invocations env evs = []"
  shows "stream_kiro_to_anthropic env resp model request_id =
           ((if list_ex is_content evs
             then [message_start_frame (resolve_request_id env request_id) model] else [])
              @ [message_delta_frame ''end_turn'' (dict_get (final_usage evs) ''outputTokens'' 0),
                 message_stop_frame],
            Returned)"
proof -
  let ?hs = "handle_events env (resolve_request_id env request_id) model init_stream_state evs"
  have "fst ?hs =
          (if list_ex is_content evs
           then [message_start_frame (resolve_request_id env request_id) model] else [])"
    and "accumulated_text (snd ?hs) = []"
    using handle_events_silent [OF assms(3,4), of "resolve_request_id env request_id" model
        init_stream_state]
    by (simp_all add: init_stream_state_def)
  then show ?thesis
    by (simp add: stream_without_parser_calls [OF assms(1,2)] Let_def assms(4)
          handle_events_final_usage)
qed

theorem stream_without_content_blocks_witness:
  "records empty_content_env (new_parser empty_content_env) (Chunk ''x'' EndOfStream) =
     ([ContentEvent (Some [])], Inr []) \<and>
   get_tool_calls empty_content_env [] = Inr [] \<and>
   filter has_text [ContentEvent (Some [])] = [] \<and>
   inline_invocations empty_content_env [ContentEvent (Some [])] = [] \<and>
   stream_kiro_to_anthropic empty_content_env (Chunk ''x'' EndOfStream) ''m'' (Some ''r'') =
     ([message_start_frame ''r'' ''m'', message_delta_frame ''end_turn'' 0, message_stop_frame],
      Returned)"
proof -
  have r: "records empty_content_env (new_parser empty_content_env) (Chunk ''x'' EndOfStream) =
     ([ContentEvent (Some [])], Inr [])"
    by (simp add: empty_content_env_def scripted_env_def)
  have g: "get_tool_calls empty_content_env [] = Inr []"
    by (simp add: empty_content_env_def scripted_env_def)
  have t: "filter has_text [ContentEvent (Some [])] = []"
    by (simp add: content_of_def)
  have i: "inline_invocations empty_content_env [ContentEvent (Some [])] = []"
    by (simp add: inline_invocations_def content_of_def empty_content_env_def scripted_env_def
          no_markers_def)
  from stream_without_content_blocks [OF r g t i, of "''m''" "Some ''r''"] r g t i
  show ?thesis by (simp add: resolve_request_id_def final_usage_def dict_get_def)
qed

theorem stream_without_message_start_counterexample:
  "records metadata_only_env (new_parser metadata_only_env) (Chunk ''x'' EndOfStream) =
     ([MetadataEvent (Some [(''usage'', [(''inputTokens'', 5), (''outputTokens'', 0)])])], Inr []) \<and>
   get_tool_calls metadata_only_env [] = Inr [] \<and>
   stream_kiro_to_anthropic metadata_only_env (Chunk ''x'' EndOfStream) ''m'' (Some ''r'') =
     ([message_delta_frame ''end_turn'' 0, message_stop_frame], Returned) \<and>
   map frame_name (fst (stream_kiro_to_anthropic metadata_only_env (Chunk ''x'' EndOfStream) ''m''
       (Some ''r''))) \<noteq> [''message_start'', ''message_delta'', ''message_stop'']"
  by (simp add: stream_kiro_to_anthropic_def metadata_only_env_def scripted_env_def
        no_markers_def resolve_request_id_def init_stream_state_def handle_event_def
        usage_of_def dict_get_def finish_def Let_def frame_name_def message_delta_frame_def
        message_stop_frame_def)


subsection \<open>The greeting scenario\<close>

text \<open>
  Claim C2. When the decoded record sequence is the content records \<^verbatim>\<open>"Hello "\<close>
  and \<^verbatim>\<open>"world"\<close> followed by a metadata record with 5 input and 2 output tokens
  (the code's keys \<^verbatim>\<open>inputTokens\<close> and \<^verbatim>\<open>outputTokens\<close>), the extractor
  finds no marker in either text and the parser returns no tool call at the end, the
  generator yields exactly seven frames, in this order: \<^verbatim>\<open>message_start\<close>, the start
  of an empty text block at index 0, two deltas at index 0 with the two texts, the stop
  of block 0, \<^verbatim>\<open>message_delta\<close> with \<^verbatim>\<open>end_turn\<close> and 2 output tokens, and
  \<^verbatim>\<open>message_stop\<close>; then it returns. The frames are written out, event name and
  payload.
\<close>

theorem stream_hello_world:
  assumes "records env (new_parser env) resp =
             ([ContentEvent (Some ''Hello ''), ContentEvent (Some ''world''),
               MetadataEvent (Some [(''usage'', [(''inputTokens'', 5), (''outputTokens'', 2)])])],
              Inr p)"
    and "get_tool_calls env p = Inr []"
    and "parse_bracket_tool_calls env ''Hello '' = []"
    and "parse_bracket_tool_calls env ''world'' = []"
  shows "stream_kiro_to_anthropic env resp model request_id =
           ([(''message_start'',
              JObj [(''type'', JStr ''message_start''),
                    (''message'',
                     JObj [(''id'', JStr (resolve_request_id env request_id)),
                           (''type'', JStr ''message''),
                           (''role'', JStr ''assistant''),
                           (''content'', JList []),
                           (''model'', JStr model),
                           (''stop_reason'', JNull),
                           (''stop_sequence'', JNull),
                           (''usage'',
                            JObj [(''input_tokens'', JInt 0), (''output_tokens'', JInt 0)])])]),
             (''content_block_start'',
              JObj [(''type'', JStr ''content_block_start''),
                    (''index'', JInt 0),
                    (''content_block'', JObj [(''type'', JStr ''text''), (''text'', JStr [])])]),
             (''content_block_delta'',
              JObj [(''type'', JStr ''content_block_delta''),
                    (''index'', JInt 0),
                    (''delta'', JObj [(''type'', JStr ''text_delta''), (''text'', JStr ''Hello '')])]),
             (''content_block_delta'',
              JObj [(''type'', JStr ''content_block_delta''),
                    (''index'', JInt 0),
                    (''delta'', JObj [(''type'', JStr ''text_delta''), (''text'', JStr ''world'')])]),
             (''content_block_stop'',
              JObj [(''type'', JStr ''content_block_stop''), (''index'', JInt 0)]),
             (''message_delta'',
              JObj [(''type'', JStr ''message_delta''),
                    (''delta'', JObj [(''stop_reason'', JStr ''end_turn''), (''stop_sequence'', JNull)]),
                    (''usage'', JObj [(''output_tokens'', JInt 2)])]),
             (''message_stop'', JObj [(''type'', JStr ''message_stop'')])],
            Returned)"
  by (simp add: stream_without_parser_calls [OF assms(1,2)] assms(3,4) Let_def
        inline_invocations_def content_of_def init_stream_state_def handle_event_def
        handle_content_def usage_of_def dict_get_def message_start_frame_def
        block_start_frame_def block_stop_frame_def text_block_def text_delta_frame_def
        message_delta_frame_def message_stop_frame_def)

theorem stream_hello_world_witness:
  "records hello_env (new_parser hello_env) (Chunk ''a'' (Chunk ''b'' EndOfStream)) =
     ([ContentEvent (Some ''Hello ''), ContentEvent (Some ''world''),
       MetadataEvent (Some [(''usage'', [(''inputTokens'', 5), (''outputTokens'', 2)])])],
      Inr []) \<and>
   get_tool_calls hello_env [] = Inr [] \<and>
   parse_bracket_tool_calls hello_env ''Hello '' = [] \<and>
   parse_bracket_tool_calls hello_env ''world'' = [] \<and>
   stream_kiro_to_anthropic hello_env (Chunk ''a'' (Chunk ''b'' EndOfStream)) ''m'' (Some ''r'') =
     ([(''message_start'',
        JObj [(''type'', JStr ''message_start''),
              (''message'',
               JObj [(''id'', JStr ''r''),
                     (''type'', JStr ''message''),
                     (''role'', JStr ''assistant''),
                     (''content'', JList []),
                     (''model'', JStr ''m''),
                     (''stop_reason'', JNull),
                     (''stop_sequence'', JNull),
                     (''usage'',
                      JObj [(''input_tokens'', JInt 0), (''output_tokens'', JInt 0)])])]),
       (''content_block_start'',
        JObj [(''type'', JStr ''content_block_start''),
              (''index'', JInt 0),
              (''content_block'', JObj [(''type'', JStr ''text''), (''text'', JStr [])])]),
       (''content_block_delta'',
        JObj [(''type'', JStr ''content_block_delta''),
              (''index'', JInt 0),
              (''delta'', JObj [(''type'', JStr ''text_delta''), (''text'', JStr ''Hello '')])]),
       (''content_block_delta'',
        JObj [(''type'', JStr ''content_block_delta''),
              (''index'', JInt 0),
              (''delta'', JObj [(''type'', JStr ''text_delta''), (''text'', JStr ''world'')])]),
       (''content_block_stop'',
        JObj [(''type'', JStr ''content_block_stop''), (''index'', JInt 0)]),
       (''message_delta'',
        JObj [(''type'', JStr ''message_delta''),
              (''delta'', JObj [(''stop_reason'', JStr ''end_turn''), (''stop_sequence'', JNull)]),
              (''usage'', JObj [(''output_tokens'', JInt 2)])]),
       (''message_stop'', JObj [(''type'', JStr ''message_stop'')])],
      Returned)"
proof -
  have r: "records hello_env (new_parser hello_env) (Chunk ''a'' (Chunk ''b'' EndOfStream)) =
     ([ContentEvent (Some ''Hello ''), ContentEvent (Some ''world''),
       MetadataEvent (Some [(''usage'', [(''inputTokens'', 5), (''outputTokens'', 2)])])],
      Inr [])"
    by (simp add: hello_env_def scripted_env_def)
  have g: "get_tool_calls hello_env [] = Inr []"
    by (simp add: hello_env_def scripted_env_def)
  have h: "parse_bracket_tool_calls hello_env ''Hello '' = []"
    by (simp add: hello_env_def scripted_env_def no_markers_def)
  have w: "parse_bracket_tool_calls hello_env ''world'' = []"
    by (simp add: hello_env_def scripted_env_def no_markers_def)
  from stream_hello_world [OF r g h w, of "''m''" "Some ''r''"] r g h w
  show ?thesis by (simp add: resolve_request_id_def)
qed


subsection \<open>Records that carry a marker\<close>

lemma collect_tool_calls_counters:
  "accumulated_text (collect_tool_calls env s tcs) = accumulated_text s"
  "input_tokens (collect_tool_calls env s tcs) = input_tokens s"
  "output_tokens (collect_tool_calls env s tcs) = output_tokens s"
  "stop_reason (collect_tool_calls env s tcs) = stop_reason s"
  by (induction tcs arbitrary: s; simp)+

text \<open>
  Claim C9. A content record in whose text the extractor finds at least one invocation
  adds no plain text: the generator yields no \<^verbatim>\<open>content_block_delta\<close> frame for it
  and leaves \<^verbatim>\<open>accumulated_text\<close> as it was, and the collector leaves its
  \<^verbatim>\<open>accumulated_text\<close> as it was.
\<close>

theorem marker_record_adds_no_text:
  assumes "inline_calls env (ContentEvent d) \<noteq> []"
  shows "''content_block_delta'' \<notin>
           frame_name ` set (fst (handle_event env request_id model s (ContentEvent d))) \<and>
         accumulated_text (snd (handle_event env request_id model s (ContentEvent d))) =
           accumulated_text s \<and>
         accumulated_text (collect_event env c (ContentEvent d)) = accumulated_text c"
proof -
  let ?tcs = "parse_bracket_tool_calls env (content_of d)"
  have tcs: "?tcs \<noteq> []" using assms by simp
  have "''content_block_delta'' \<notin> frame_name ` set (fst (emit_inline_tool_calls env s' ?tcs))" for s'
    using emit_inline_names [of env s' ?tcs] by auto
  then have "''content_block_delta'' \<notin>
           frame_name ` set (fst (handle_event env request_id model s (ContentEvent d)))"
    using tcs
    by (simp add: handle_event_def handle_content_def content_of_def split_beta Let_def
          frame_name_def message_start_frame_def)
  moreover have "accumulated_text (snd (handle_event env request_id model s (ContentEvent d))) =
           accumulated_text s"
    using tcs
    by (simp add: handle_event_def handle_content_def content_of_def split_beta Let_def
          emit_inline_counters)
  moreover have "accumulated_text (collect_event env c (ContentEvent d)) = accumulated_text c"
    using tcs
    by (simp add: collect_event_def content_of_def Let_def collect_tool_calls_counters)
  ultimately show ?thesis by blast
qed

theorem marker_record_adds_no_text_witness:
  "inline_calls marker_env (ContentEvent (Some ''[tool_call:search{}]'')) \<noteq> [] \<and>
   fst (handle_event marker_env ''r'' ''m'' init_stream_state
          (ContentEvent (Some ''[tool_call:search{}]''))) =
     [message_start_frame ''r'' ''m'',
      block_start_frame 0 (tool_use_block ''toolu_0_0'' (JStr ''search'') (JObj [])),
      block_stop_frame 0] \<and>
   ''content_block_delta'' \<notin>
     frame_name ` set (fst (handle_event marker_env ''r'' ''m'' init_stream_state
                              (ContentEvent (Some ''[tool_call:search{}]'')))) \<and>
   accumulated_text (snd (handle_event marker_env ''r'' ''m'' init_stream_state
                            (ContentEvent (Some ''[tool_call:search{}]'')))) = [] \<and>
   accumulated_text (collect_event marker_env init_collect_state
                       (ContentEvent (Some ''[tool_call:search{}]''))) = []"
proof -
  have i: "inline_calls marker_env (ContentEvent (Some ''[tool_call:search{}]'')) \<noteq> []"
    by (simp add: content_of_def marker_env_def scripted_env_def one_marker_def)
  have f: "fst (handle_event marker_env ''r'' ''m'' init_stream_state
          (ContentEvent (Some ''[tool_call:search{}]''))) =
     [message_start_frame ''r'' ''m'',
      block_start_frame 0 (tool_use_block ''toolu_0_0'' (JStr ''search'') (JObj [])),
      block_stop_frame 0]"
    by (simp add: handle_event_def handle_content_def marker_env_def scripted_env_def
          one_marker_def init_stream_state_def Let_def inline_tool_use_def tool_use_id_def
          str_int_def str_nat.simps dict_get_def)
  from marker_record_adds_no_text [OF i, of "''r''" "''m''" init_stream_state init_collect_state]
    i f
  show ?thesis by (simp add: init_stream_state_def init_collect_state_def)
qed


subsection \<open>The collector in terms of the record sequence\<close>

lemma collect_by_records:
  assumes "records env (new_parser env) resp = (evs, r)"
  shows "collect_anthropic_response env resp model request_id =
     (case r of
        Inl e \<Rightarrow> Inl e
      | Inr p \<Rightarrow>
          Inr (build_response (resolve_request_id env request_id) model
                 (collect_events env init_collect_state evs)))"
  unfolding collect_anthropic_response_def collect_loop_records
  using assms by (simp add: Let_def split: sum.splits)

lemma is_tool_use_blocks:
  "is_tool_use (tool_use_block ident nm inp)"
  "\<not> is_tool_use (text_block t)"
  by (simp_all add: is_tool_use_def tool_use_block_def text_block_def)

lemma collect_tool_calls_blocks:
  assumes "list_all is_tool_use (content_blocks s)"
  shows "list_all is_tool_use (content_blocks (collect_tool_calls env s tcs))"
    and "content_blocks (collect_tool_calls env s tcs) = [] \<longleftrightarrow> content_blocks s = [] \<and> tcs = []"
  using assms
  by (induction tcs arbitrary: s; simp add: collect_tool_use_def is_tool_use_blocks)+

lemma collect_event_blocks:
  assumes "list_all is_tool_use (content_blocks s)"
    and "stop_reason s = (if content_blocks s = [] then ''end_turn'' else ''tool_use'')"
  shows "list_all is_tool_use (content_blocks (collect_event env s ev))"
    and "stop_reason (collect_event env s ev) =
           (if content_blocks (collect_event env s ev) = [] then ''end_turn'' else ''tool_use'')"
  using assms
  by (cases ev; simp add: collect_event_def Let_def collect_tool_calls_blocks)+

lemma collect_events_blocks:
  assumes "list_all is_tool_use (content_blocks s)"
    and "stop_reason s = (if content_blocks s = [] then ''end_turn'' else ''tool_use'')"
  shows "list_all is_tool_use (content_blocks (collect_events env s evs)) \<and>
         stop_reason (collect_events env s evs) =
           (if content_blocks (collect_events env s evs) = [] then ''end_turn'' else ''tool_use'')"
  using assms
proof (induction evs arbitrary: s)
  case Nil
  then show ?case by simp
next
  case (Cons ev evs)
  have a: "list_all is_tool_use (content_blocks (collect_event env s ev))"
    by (rule collect_event_blocks(1) [OF Cons.prems])
  have b: "stop_reason (collect_event env s ev) =
             (if content_blocks (collect_event env s ev) = [] then ''end_turn'' else ''tool_use'')"
    by (rule collect_event_blocks(2) [OF Cons.prems])
  show ?case
    using Cons.IH [OF a b] by simp
qed

lemma list_ex_all_tool_use:
  assumes "list_all is_tool_use bs"
  shows "list_ex is_tool_use bs \<longleftrightarrow> bs \<noteq> []"
  using assms by (cases bs) simp_all

text \<open>
  Claim C6. In collection mode, the object returned by a completed translation has
  stop reason \<^verbatim>\<open>tool_use\<close> if its content list contains a block of type
  \<^verbatim>\<open>tool_use\<close>, and \<^verbatim>\<open>end_turn\<close> if it contains none.
\<close>

theorem collect_stop_reason:
  assumes "collect_anthropic_response env resp model request_id = Inr obj"
  shows "\<exists>blocks. field ''content'' obj = Some (JList blocks) \<and>
           field ''stop_reason'' obj =
             Some (JStr (if list_ex is_tool_use blocks then ''tool_use'' else ''end_turn''))"
proof -
  obtain evs r where rec: "records env (new_parser env) resp = (evs, r)"
    by (cases "records env (new_parser env) resp")
  let ?s = "collect_events env init_collect_state evs"
  have obj: "obj = build_response (resolve_request_id env request_id) model ?s"
    using assms by (simp add: collect_by_records [OF rec] split: sum.splits)
  have inv: "list_all is_tool_use (content_blocks ?s)"
    "stop_reason ?s = (if content_blocks ?s = [] then ''end_turn'' else ''tool_use'')"
    using collect_events_blocks [of init_collect_state env evs]
    by (simp_all add: init_collect_state_def)
  let ?blocks = "if accumulated_text ?s \<noteq> [] then text_block (accumulated_text ?s) # content_blocks ?s
                 else content_blocks ?s"
  have "list_ex is_tool_use ?blocks \<longleftrightarrow> content_blocks ?s \<noteq> []"
    using list_ex_all_tool_use [OF inv(1)] by (simp add: is_tool_use_blocks)
  then have "field ''content'' obj = Some (JList ?blocks) \<and>
           field ''stop_reason'' obj =
             Some (JStr (if list_ex is_tool_use ?blocks then ''tool_use'' else ''end_turn''))"
    unfolding obj using inv(2) by (simp add: build_response_def Let_def)
  then show ?thesis by blast
qed

theorem collect_stop_reason_witness:
  "collect_anthropic_response marker_env (Chunk ''x'' EndOfStream) ''m'' (Some ''r'') =
     Inr (JObj [(''id'', JStr ''r''),
                (''type'', JStr ''message''),
                (''role'', JStr ''assistant''),
                (''content'', JList [tool_use_block ''toolu_0_0'' (JStr ''search'') (JObj [])]),
                (''model'', JStr ''m''),
                (''stop_reason'', JStr ''tool_use''),
                (''stop_sequence'', JNull),
                (''usage'', JObj [(''input_tokens'', JInt 0), (''output_tokens'', JInt 0)])]) \<and>
   (\<exists>blocks.
      field ''content''
        (JObj [(''id'', JStr ''r''),
               (''type'', JStr ''message''),
               (''role'', JStr ''assistant''),
               (''content'', JList [tool_use_block ''toolu_0_0'' (JStr ''search'') (JObj [])]),
               (''model'', JStr ''m''),
               (''stop_reason'', JStr ''tool_use''),
               (''stop_sequence'', JNull),
               (''usage'', JObj [(''input_tokens'', JInt 0), (''output_tokens'', JInt 0)])]) =
        Some (JList blocks) \<and>
      list_ex is_tool_use blocks)"
proof -
  let ?obj = "JObj [(''id'', JStr ''r''),
                (''type'', JStr ''message''),
                (''role'', JStr ''assistant''),
                (''content'', JList [tool_use_block ''toolu_0_0'' (JStr ''search'') (JObj [])]),
                (''model'', JStr ''m''),
                (''stop_reason'', JStr ''tool_use''),
                (''stop_sequence'', JNull),
                (''usage'', JObj [(''input_tokens'', JInt 0), (''output_tokens'', JInt 0)])]"
  have c: "collect_anthropic_response marker_env (Chunk ''x'' EndOfStream) ''m'' (Some ''r'') =
     Inr ?obj"
    by (simp add: collect_anthropic_response_def marker_env_def scripted_env_def one_marker_def
          resolve_request_id_def init_collect_state_def collect_event_def collect_tool_use_def
          build_response_def Let_def tool_use_id_def str_int_def str_nat.simps dict_get_def)
  from collect_stop_reason [OF c] c show ?thesis
    by (auto simp add: is_tool_use_blocks)
qed


subsection \<open>Token counters\<close>

lemma collect_events_tokens:
  "input_tokens (collect_events env s evs) =
     (if usages evs = [] then input_tokens s
      else dict_get (last (usages evs)) ''inputTokens'' 0)"
  "output_tokens (collect_events env s evs) =
     (if usages evs = [] then output_tokens s
      else dict_get (last (usages evs)) ''outputTokens'' 0)"
proof (induction evs arbitrary: s)
  case Nil
  { case 1 show ?case by simp }
  { case 2 show ?case by simp }
next
  case (Cons ev evs)
  { case 1 show ?case
      by (cases ev) (simp_all add: Cons.IH(1) Let_def collect_event_def collect_tool_calls_counters) }
  { case 2 show ?case
      by (cases ev) (simp_all add: Cons.IH(2) Let_def collect_event_def collect_tool_calls_counters) }
qed

lemma collect_events_final_usage:
  "input_tokens (collect_events env init_collect_state evs) =
     dict_get (final_usage evs) ''inputTokens'' 0"
  "output_tokens (collect_events env init_collect_state evs) =
     dict_get (final_usage evs) ''outputTokens'' 0"
  by (simp_all add: collect_events_tokens final_usage_def init_collect_state_def dict_get_def)

text \<open>
  Claim C10. In both functions a metadata record sets both counters to the values of
  its usage mapping, with 0 for a missing \<^verbatim>\<open>inputTokens\<close> or
  \<^verbatim>\<open>outputTokens\<close>, whatever the counters were before. So for a completed
  translation the \<^verbatim>\<open>output_tokens\<close> of the generator's \<^verbatim>\<open>message_delta\<close> and
  the \<^verbatim>\<open>usage\<close> of the collected object are read, with default 0, from the usage
  mapping of the last metadata record, which is the empty mapping when there was none.
  (The generator completes when no conversion of a parser tool call raises; the
  collector converts none.)
\<close>

theorem usage_of_last_metadata:
  assumes "records env (new_parser env) resp = (evs, Inr p)"
    and "get_tool_calls env p = Inr tcs"
  shows "(conversion_failure env tcs = None \<longrightarrow>
          (\<exists>pre reason payload.
            fst (stream_kiro_to_anthropic env resp model request_id) =
              pre @ [message_delta_frame reason (dict_get (final_usage evs) ''outputTokens'' 0),
                     message_stop_frame] \<and>
            message_delta_frame reason (dict_get (final_usage evs) ''outputTokens'' 0) =
              (''message_delta'', payload) \<and>
            nested_field ''usage'' ''output_tokens'' payload =
              Some (JInt (dict_get (final_usage evs) ''outputTokens'' 0)))) \<and>
         (\<exists>obj.
            collect_anthropic_response env resp model request_id = Inr obj \<and>
            field ''usage'' obj =
              Some (JObj [(''input_tokens'', JInt (dict_get (final_usage evs) ''inputTokens'' 0)),
                          (''output_tokens'', JInt (dict_get (final_usage evs) ''outputTokens'' 0))])) \<and>
         input_tokens (snd (handle_event env rid model s (MetadataEvent m))) =
           dict_get (usage_of m) ''inputTokens'' 0 \<and>
         output_tokens (snd (handle_event env rid model s (MetadataEvent m))) =
           dict_get (usage_of m) ''outputTokens'' 0 \<and>
         input_tokens (collect_event env c (MetadataEvent m)) =
           dict_get (usage_of m) ''inputTokens'' 0 \<and>
         output_tokens (collect_event env c (MetadataEvent m)) =
           dict_get (usage_of m) ''outputTokens'' 0"
proof -
  have stream: "\<exists>pre reason payload.
            fst (stream_kiro_to_anthropic env resp model request_id) =
              pre @ [message_delta_frame reason (dict_get (final_usage evs) ''outputTokens'' 0),
                     message_stop_frame] \<and>
            message_delta_frame reason (dict_get (final_usage evs) ''outputTokens'' 0) =
              (''message_delta'', payload) \<and>
            nested_field ''usage'' ''output_tokens'' payload =
              Some (JInt (dict_get (final_usage evs) ''outputTokens'' 0))"
    if conv: "conversion_failure env tcs = None"
  proof -
    let ?n = "dict_get (final_usage evs) ''outputTokens'' 0"
    obtain pre reason where
      "fst (stream_kiro_to_anthropic env resp model request_id) =
         pre @ [message_delta_frame reason ?n, message_stop_frame]"
      using stream_completed_names [OF assms conv, of model request_id] by blast
    moreover have "message_delta_frame reason ?n =
        (''message_delta'',
         JObj [(''type'', JStr ''message_delta''),
               (''delta'', JObj [(''stop_reason'', JStr reason), (''stop_sequence'', JNull)]),
               (''usage'', JObj [(''output_tokens'', JInt ?n)])])"
      by (simp add: message_delta_payload)
    moreover have "nested_field ''usage'' ''output_tokens''
        (JObj [(''type'', JStr ''message_delta''),
               (''delta'', JObj [(''stop_reason'', JStr reason), (''stop_sequence'', JNull)]),
               (''usage'', JObj [(''output_tokens'', JInt ?n)])]) = Some (JInt ?n)"
      by (simp add: nested_field_def)
    ultimately show ?thesis by blast
  qed
  have collect: "\<exists>obj.
            collect_anthropic_response env resp model request_id = Inr obj \<and>
            field ''usage'' obj =
              Some (JObj [(''input_tokens'', JInt (dict_get (final_usage evs) ''inputTokens'' 0)),
                          (''output_tokens'', JInt (dict_get (final_usage evs) ''outputTokens'' 0))])"
    by (simp add: collect_by_records [OF assms(1)] build_response_def Let_def
          collect_events_final_usage)
  have step: "input_tokens (snd (handle_event env rid model s (MetadataEvent m))) =
           dict_get (usage_of m) ''inputTokens'' 0"
    "output_tokens (snd (handle_event env rid model s (MetadataEvent m))) =
           dict_get (usage_of m) ''outputTokens'' 0"
    "input_tokens (collect_event env c (MetadataEvent m)) =
           dict_get (usage_of m) ''inputTokens'' 0"
    "output_tokens (collect_event env c (MetadataEvent m)) =
           dict_get (usage_of m) ''outputTokens'' 0"
    by (simp_all add: handle_event_def collect_event_def)
  from stream collect step show ?thesis by blast
qed

theorem usage_of_last_metadata_witness:
  "records two_metadata_env (new_parser two_metadata_env) (Chunk ''x'' EndOfStream) =
     ([MetadataEvent (Some [(''usage'', [(''inputTokens'', 5), (''outputTokens'', 2)])]),
       ContentEvent (Some ''Hi''),
       MetadataEvent (Some [(''usage'', [(''inputTokens'', 7)])])], Inr []) \<and>
   get_tool_calls two_metadata_env [] = Inr [] \<and>
   conversion_failure two_metadata_env [] = None \<and>
   (\<exists>pre reason payload.
      fst (stream_kiro_to_anthropic two_metadata_env (Chunk ''x'' EndOfStream) ''m'' None) =
        pre @ [message_delta_frame reason 0, message_stop_frame] \<and>
      message_delta_frame reason 0 = (''message_delta'', payload) \<and>
      nested_field ''usage'' ''output_tokens'' payload = Some (JInt 0)) \<and>
   (\<exists>obj.
      collect_anthropic_response two_metadata_env (Chunk ''x'' EndOfStream) ''m'' None = Inr obj \<and>
      field ''usage'' obj =
        Some (JObj [(''input_tokens'', JInt 7), (''output_tokens'', JInt 0)]))"
proof -
  have r: "records two_metadata_env (new_parser two_metadata_env) (Chunk ''x'' EndOfStream) =
     ([MetadataEvent (Some [(''usage'', [(''inputTokens'', 5), (''outputTokens'', 2)])]),
       ContentEvent (Some ''Hi''),
       MetadataEvent (Some [(''usage'', [(''inputTokens'', 7)])])], Inr [])"
    by (simp add: two_metadata_env_def scripted_env_def)
  have g: "get_tool_calls two_metadata_env [] = Inr []"
    by (simp add: two_metadata_env_def scripted_env_def)
  have u: "final_usage
             [MetadataEvent (Some [(''usage'', [(''inputTokens'', 5), (''outputTokens'', 2)])]),
              ContentEvent (Some ''Hi''),
              MetadataEvent (Some [(''usage'', [(''inputTokens'', 7)])])] = [(''inputTokens'', 7)]"
    by (simp add: final_usage_def usage_of_def dict_get_def)
  from usage_of_last_metadata [OF r g, of "''m''" None] r g show ?thesis
    by (simp add: u dict_get_def)
qed


subsection \<open>The arguments of tool calls\<close>

lemma emit_parser_tool_calls_block:
  assumes "call \<in> set tcs" and "conversion_failure env tcs = None"
  shows "\<exists>idx ident arguments.
           parse_arguments env call = Inr arguments \<and>
           block_start_frame idx
             (tool_use_block ident (dict_get (dict_get call ''function'' []) ''name'' (JStr []))
                arguments)
           \<in> set (fst (emit_parser_tool_calls env s tcs))"
  using assms
proof (induction tcs arbitrary: s)
  case Nil
  then show ?case by simp
next
  case (Cons tc tcs)
  obtain arguments where a: "parse_arguments env tc = Inr arguments"
    using Cons.prems(2) by (cases "parse_arguments env tc") simp_all
  then have rest: "conversion_failure env tcs = None"
    using Cons.prems(2) by simp
  show ?case
  proof (cases "call = tc")
    case True
    then show ?thesis
      using a by (auto simp add: split_beta Let_def parser_tool_use_def)
  next
    case False
    then have "call \<in> set tcs" using Cons.prems(1) by simp
    from Cons.IH [OF this rest] show ?thesis
      using a by (simp add: split_beta Let_def) blast
  qed
qed

lemma parse_arguments_malformed:
  assumes "dict_get (dict_get call ''function'' []) ''arguments'' (JStr ''{}'') = JStr body"
    and "json_loads env body = Inl DecodeError"
  shows "parse_arguments env call = Inr (JObj [])"
  using assms by (simp add: parse_arguments_def)

lemma emit_inline_tool_calls_block:
  assumes "tc \<in> set tcs"
  shows "\<exists>idx ident.
           block_start_frame idx
             (tool_use_block ident (dict_get tc ''name'' (JStr []))
                (dict_get tc ''arguments'' (JObj [])))
           \<in> set (fst (emit_inline_tool_calls env s tcs))"
  using assms
proof (induction tcs arbitrary: s)
  case Nil
  then show ?case by simp
next
  case (Cons tc' tcs)
  show ?case
  proof (cases "tc = tc'")
    case True
    then show ?thesis
      by (auto simp add: split_beta Let_def inline_tool_use_def)
  next
    case False
    then have "tc \<in> set tcs" using Cons.prems by simp
    from Cons.IH [OF this] show ?thesis
      by (simp add: split_beta Let_def) blast
  qed
qed

lemma collect_tool_calls_keeps:
  "set (content_blocks c) \<subseteq> set (content_blocks (collect_tool_calls env c tcs))"
proof (induction tcs arbitrary: c)
  case Nil
  show ?case by simp
next
  case (Cons tc tcs)
  show ?case
    using Cons.IH [of "c\<lparr>content_blocks := content_blocks c @ [collect_tool_use env c tc]\<rparr>"]
    by auto
qed

lemma collect_tool_calls_block:
  assumes "tc \<in> set tcs"
  shows "\<exists>ident.
           tool_use_block ident (dict_get tc ''name'' (JStr []))
             (dict_get tc ''arguments'' (JObj []))
           \<in> set (content_blocks (collect_tool_calls env c tcs))"
  using assms
proof (induction tcs arbitrary: c)
  case Nil
  then show ?case by simp
next
  case (Cons tc' tcs)
  let ?c1 = "c\<lparr>content_blocks := content_blocks c @ [collect_tool_use env c tc']\<rparr>"
  show ?case
  proof (cases "tc = tc'")
    case True
    have "collect_tool_use env c tc \<in> set (content_blocks ?c1)"
      using True by simp
    then have "collect_tool_use env c tc \<in> set (content_blocks (collect_tool_calls env ?c1 tcs))"
      using collect_tool_calls_keeps [of ?c1 env tcs] by blast
    then show ?thesis
      by (auto simp add: collect_tool_use_def)
  next
    case False
    then have "tc \<in> set tcs" using Cons.prems by simp
    from Cons.IH [OF this, of ?c1] show ?thesis by simp
  qed
qed

lemma tool_use_start_payload:
  "block_start_frame idx (tool_use_block ident nm inp) =
     (''content_block_start'',
      JObj [(''type'', JStr ''content_block_start''),
            (''index'', JInt idx),
            (''content_block'',
             JObj [(''type'', JStr ''tool_use''), (''id'', JStr ident), (''name'', nm),
                   (''input'', inp)])])"
  by (simp add: block_start_frame_def tool_use_block_def)

text \<open>
  Claim C8, as amended. In streaming mode, when a tool call returned by the parser at
  the end of the stream has an argument text that \<^verbatim>\<open>json.loads\<close> rejects with
  \<^verbatim>\<open>JSONDecodeError\<close> or \<^verbatim>\<open>ValueError\<close>, its conversion does not raise but
  gives the empty mapping, and if no conversion of another call raises, the generator
  returns and among its frames is the start of a \<^verbatim>\<open>tool_use\<close> block with the call's
  name and the empty mapping as input. An invocation that the extractor finds in a
  content record is surfaced, by the generator as a block start and by the collector
  as a content block, with the arguments the extractor returned for it, the empty
  mapping when it returned none.
\<close>

theorem malformed_arguments_empty_input:
  assumes "records env (new_parser env) resp = (evs, Inr p)"
    and "get_tool_calls env p = Inr tcs"
    and "conversion_failure env tcs = None"
    and "call \<in> set tcs"
    and "dict_get (dict_get call ''function'' []) ''arguments'' (JStr ''{}'') = JStr body"
    and "json_loads env body = Inl DecodeError"
  shows "parse_arguments env call = Inr (JObj []) \<and>
         snd (stream_kiro_to_anthropic env resp model request_id) = Returned \<and>
         (\<exists>idx ident.
            (''content_block_start'',
             JObj [(''type'', JStr ''content_block_start''),
                   (''index'', JInt idx),
                   (''content_block'',
                    JObj [(''type'', JStr ''tool_use''),
                          (''id'', JStr ident),
                          (''name'', dict_get (dict_get call ''function'' []) ''name'' (JStr [])),
                          (''input'', JObj [])])])
            \<in> set (fst (stream_kiro_to_anthropic env resp model request_id))) \<and>
         (tc \<in> set (parse_bracket_tool_calls env (content_of d)) \<longrightarrow>
            (\<exists>idx ident.
               (''content_block_start'',
                JObj [(''type'', JStr ''content_block_start''),
                      (''index'', JInt idx),
                      (''content_block'',
                       JObj [(''type'', JStr ''tool_use''),
                             (''id'', JStr ident),
                             (''name'', dict_get tc ''name'' (JStr [])),
                             (''input'', dict_get tc ''arguments'' (JObj []))])])
               \<in> set (fst (handle_event env rid model s (ContentEvent d)))) \<and>
            (\<exists>ident.
               JObj [(''type'', JStr ''tool_use''),
                     (''id'', JStr ident),
                     (''name'', dict_get tc ''name'' (JStr [])),
                     (''input'', dict_get tc ''arguments'' (JObj []))]
               \<in> set (content_blocks (collect_event env c (ContentEvent d)))))"
proof -
  let ?hs = "handle_events env (resolve_request_id env request_id) model init_stream_state evs"
  have conv: "parse_arguments env call = Inr (JObj [])"
    by (rule parse_arguments_malformed [OF assms(5,6)])
  obtain idx ident where
    "block_start_frame idx
       (tool_use_block ident (dict_get (dict_get call ''function'' []) ''name'' (JStr []))
          (JObj []))
     \<in> set (fst (emit_parser_tool_calls env (snd ?hs) tcs))"
    using emit_parser_tool_calls_block [OF assms(4,3), of "snd ?hs"] conv by auto
  then have "block_start_frame idx
       (tool_use_block ident (dict_get (dict_get call ''function'' []) ''name'' (JStr []))
          (JObj []))
     \<in> set (fst (stream_kiro_to_anthropic env resp model request_id))"
    by (simp add: stream_completed [OF assms(1,2,3)] Let_def)
  then have surfaced: "\<exists>idx ident.
            (''content_block_start'',
             JObj [(''type'', JStr ''content_block_start''),
                   (''index'', JInt idx),
                   (''content_block'',
                    JObj [(''type'', JStr ''tool_use''),
                          (''id'', JStr ident),
                          (''name'', dict_get (dict_get call ''function'' []) ''name'' (JStr [])),
                          (''input'', JObj [])])])
            \<in> set (fst (stream_kiro_to_anthropic env resp model request_id))"
    unfolding tool_use_start_payload by blast
  have returned: "snd (stream_kiro_to_anthropic env resp model request_id) = Returned"
    by (simp add: stream_completed [OF assms(1,2,3)] Let_def)
  have inline: "(\<exists>idx ident.
               (''content_block_start'',
                JObj [(''type'', JStr ''content_block_start''),
                      (''index'', JInt idx),
                      (''content_block'',
                       JObj [(''type'', JStr ''tool_use''),
                             (''id'', JStr ident),
                             (''name'', dict_get tc ''name'' (JStr [])),
                             (''input'', dict_get tc ''arguments'' (JObj []))])])
               \<in> set (fst (handle_event env rid model s (ContentEvent d)))) \<and>
            (\<exists>ident.
               JObj [(''type'', JStr ''tool_use''),
                     (''id'', JStr ident),
                     (''name'', dict_get tc ''name'' (JStr [])),
                     (''input'', dict_get tc ''arguments'' (JObj []))]
               \<in> set (content_blocks (collect_event env c (ContentEvent d))))"
    if tc: "tc \<in> set (parse_bracket_tool_calls env (content_of d))"
  proof -
    let ?tcs = "parse_bracket_tool_calls env (content_of d)"
    let ?s0 = "if \<not> message_started s then s\<lparr>message_started := True\<rparr> else s"
    have ne: "?tcs \<noteq> []" using tc by auto
    obtain idx ident where
      "block_start_frame idx
         (tool_use_block ident (dict_get tc ''name'' (JStr []))
            (dict_get tc ''arguments'' (JObj [])))
       \<in> set (fst (emit_inline_tool_calls env ?s0 ?tcs))"
      using emit_inline_tool_calls_block [OF tc, of env ?s0] by blast
    then have "block_start_frame idx
         (tool_use_block ident (dict_get tc ''name'' (JStr []))
            (dict_get tc ''arguments'' (JObj [])))
       \<in> set (fst (handle_event env rid model s (ContentEvent d)))"
      using ne
      by (auto simp add: handle_event_def handle_content_def content_of_def split_beta Let_def
            split: if_splits)
    then have g: "\<exists>idx ident.
               (''content_block_start'',
                JObj [(''type'', JStr ''content_block_start''),
                      (''index'', JInt idx),
                      (''content_block'',
                       JObj [(''type'', JStr ''tool_use''),
                             (''id'', JStr ident),
                             (''name'', dict_get tc ''name'' (JStr [])),
                             (''input'', dict_get tc ''arguments'' (JObj []))])])
               \<in> set (fst (handle_event env rid model s (ContentEvent d)))"
      unfolding tool_use_start_payload by blast
    obtain ident' where
      "tool_use_block ident' (dict_get tc ''name'' (JStr []))
         (dict_get tc ''arguments'' (JObj []))
       \<in> set (content_blocks (collect_tool_calls env c ?tcs))"
      using collect_tool_calls_block [OF tc, of env c] by blast
    then have "tool_use_block ident' (dict_get tc ''name'' (JStr []))
         (dict_get tc ''arguments'' (JObj []))
       \<in> set (content_blocks (collect_event env c (ContentEvent d)))"
      using ne by (simp add: collect_event_def content_of_def Let_def)
    then have "\<exists>ident.
               JObj [(''type'', JStr ''tool_use''),
                     (''id'', JStr ident),
                     (''name'', dict_get tc ''name'' (JStr [])),
                     (''input'', dict_get tc ''arguments'' (JObj []))]
               \<in> set (content_blocks (collect_event env c (ContentEvent d)))"
      unfolding tool_use_block_def by blast
    with g show ?thesis by blast
  qed
  from conv returned surfaced inline show ?thesis by blast
qed


theorem malformed_arguments_empty_input_witness:
  "records malformed_env (new_parser malformed_env) (Chunk ''x'' EndOfStream) =
     ([ContentEvent (Some ''Hi'')], Inr []) \<and>
   get_tool_calls malformed_env [] =
     Inr [[(''function'', [(''name'', JStr ''search''), (''arguments'', JStr ''{bad'')])]] \<and>
   conversion_failure malformed_env
     [[(''function'', [(''name'', JStr ''search''), (''arguments'', JStr ''{bad'')])]] = None \<and>
   json_loads malformed_env ''{bad'' = Inl DecodeError \<and>
   [(''name'', JStr ''search''), (''arguments'', JObj [])]
     \<in> set (parse_bracket_tool_calls malformed_env (content_of (Some ''[tool_call:search{}]''))) \<and>
   stream_kiro_to_anthropic malformed_env (Chunk ''x'' EndOfStream) ''m'' (Some ''r'') =
     ([message_start_frame ''r'' ''m'',
       block_start_frame 0 (text_block []),
       text_delta_frame ''Hi'',
       block_stop_frame 0,
       (''content_block_start'',
        JObj [(''type'', JStr ''content_block_start''),
              (''index'', JInt 1),
              (''content_block'',
               JObj [(''type'', JStr ''tool_use''),
                     (''id'', JStr ''toolu_0_0''),
                     (''name'', JStr ''search''),
                     (''input'', JObj [])])]),
       block_stop_frame 1,
       message_delta_frame ''tool_use'' 0,
       message_stop_frame],
      Returned) \<and>
   (\<exists>idx ident.
      (''content_block_start'',
       JObj [(''type'', JStr ''content_block_start''),
             (''index'', JInt idx),
             (''content_block'',
              JObj [(''type'', JStr ''tool_use''),
                    (''id'', JStr ident),
                    (''name'', JStr ''search''),
                    (''input'', JObj [])])])
      \<in> set (fst (handle_event malformed_env ''r'' ''m'' init_stream_state
                      (ContentEvent (Some ''[tool_call:search{}]''))))) \<and>
   (\<exists>ident.
      JObj [(''type'', JStr ''tool_use''),
            (''id'', JStr ident),
            (''name'', JStr ''search''),
            (''input'', JObj [])]
      \<in> set (content_blocks (collect_event malformed_env init_collect_state
                                 (ContentEvent (Some ''[tool_call:search{}]'')))))"
proof -
  let ?call = "[(''function'', [(''name'', JStr ''search''), (''arguments'', JStr ''{bad'')])]"
  let ?tc = "[(''name'', JStr ''search''), (''arguments'', JObj [])]"
  have r: "records malformed_env (new_parser malformed_env) (Chunk ''x'' EndOfStream) =
     ([ContentEvent (Some ''Hi'')], Inr [])"
    by (simp add: malformed_env_def scripted_env_def)
  have g: "get_tool_calls malformed_env [] = Inr [?call]"
    by (simp add: malformed_env_def scripted_env_def)
  have j: "json_loads malformed_env ''{bad'' = Inl DecodeError"
    by (simp add: malformed_env_def scripted_env_def)
  have a: "dict_get (dict_get ?call ''function'' []) ''arguments'' (JStr ''{}'') = JStr ''{bad''"
    by (simp add: dict_get_def)
  have cf: "conversion_failure malformed_env [?call] = None"
    by (simp add: parse_arguments_malformed [OF a j])
  have m: "?call \<in> set [?call]" by simp
  have t: "?tc \<in> set (parse_bracket_tool_calls malformed_env (content_of (Some ''[tool_call:search{}]'')))"
    by (simp add: malformed_env_def scripted_env_def one_marker_def content_of_def)
  have s: "stream_kiro_to_anthropic malformed_env (Chunk ''x'' EndOfStream) ''m'' (Some ''r'') =
     ([message_start_frame ''r'' ''m'',
       block_start_frame 0 (text_block []),
       text_delta_frame ''Hi'',
       block_stop_frame 0,
       (''content_block_start'',
        JObj [(''type'', JStr ''content_block_start''),
              (''index'', JInt 1),
              (''content_block'',
               JObj [(''type'', JStr ''tool_use''),
                     (''id'', JStr ''toolu_0_0''),
                     (''name'', JStr ''search''),
                     (''input'', JObj [])])]),
       block_stop_frame 1,
       message_delta_frame ''tool_use'' 0,
       message_stop_frame],
      Returned)"
    by (simp add: stream_kiro_to_anthropic_def malformed_env_def scripted_env_def one_marker_def
          resolve_request_id_def init_stream_state_def handle_event_def handle_content_def
          finish_def parser_tool_use_def parse_arguments_def Let_def tool_use_id_def str_int_def
          str_nat.simps dict_get_def block_start_frame_def tool_use_block_def)
  from malformed_arguments_empty_input
         [OF r g cf m a j, where tc = ?tc and d = "Some ''[tool_call:search{}]''"
            and rid = "''r''" and model = "''m''" and s = init_stream_state
            and c = init_collect_state and request_id = "Some ''r''"]
       r g cf j t s
  show ?thesis by (simp add: dict_get_def)
qed

theorem malformed_arguments_counterexample:
  "get_tool_calls deep_env [] =
     Inr [[(''function'', [(''name'', JStr ''search''), (''arguments'', JStr deep_text)])]] \<and>
   json_loads deep_env deep_text = Inl (OtherError (Exn ''maximum recursion depth exceeded'')) \<and>
   stream_kiro_to_anthropic deep_env (Chunk ''x'' EndOfStream) ''m'' (Some ''r'') =
     ([message_start_frame ''r'' ''m'',
       block_start_frame 0 (text_block []),
       text_delta_frame ''Hi'',
       block_stop_frame 0,
       (''error'',
        JObj [(''type'', JStr ''error''),
              (''error'',
               JObj [(''type'', JStr ''api_error''),
                     (''message'', JStr ''maximum recursion depth exceeded'')])])],
      Raised (Exn ''maximum recursion depth exceeded'')) \<and>
   get_tool_calls malformed_env [] =
     Inr [[(''function'', [(''name'', JStr ''search''), (''arguments'', JStr ''{bad'')])]] \<and>
   json_loads malformed_env ''{bad'' = Inl DecodeError \<and>
   collect_anthropic_response malformed_env (Chunk ''x'' EndOfStream) ''m'' (Some ''r'') =
     Inr (JObj [(''id'', JStr ''r''),
                (''type'', JStr ''message''),
                (''role'', JStr ''assistant''),
                (''content'', JList [JObj [(''type'', JStr ''text''), (''text'', JStr ''Hi'')]]),
                (''model'', JStr ''m''),
                (''stop_reason'', JStr ''end_turn''),
                (''stop_sequence'', JNull),
                (''usage'', JObj [(''input_tokens'', JInt 0), (''output_tokens'', JInt 0)])])"
proof -
  have "get_tool_calls deep_env [] =
     Inr [[(''function'', [(''name'', JStr ''search''), (''arguments'', JStr deep_text)])]]"
    by (simp add: deep_env_def scripted_env_def)
  moreover
  have "json_loads deep_env deep_text = Inl (OtherError (Exn ''maximum recursion depth exceeded''))"
    by (simp add: deep_env_def scripted_env_def deep_loads_def)
  moreover
  have "stream_kiro_to_anthropic deep_env (Chunk ''x'' EndOfStream) ''m'' (Some ''r'') =
     ([message_start_frame ''r'' ''m'',
       block_start_frame 0 (text_block []),
       text_delta_frame ''Hi'',
       block_stop_frame 0,
       (''error'',
        JObj [(''type'', JStr ''error''),
              (''error'',
               JObj [(''type'', JStr ''api_error''),
                     (''message'', JStr ''maximum recursion depth exceeded'')])])],
      Raised (Exn ''maximum recursion depth exceeded''))"
    by (simp add: stream_kiro_to_anthropic_def deep_env_def scripted_env_def no_markers_def
          deep_loads_def resolve_request_id_def init_stream_state_def handle_event_def
          handle_content_def finish_def parse_arguments_def Let_def dict_get_def
          error_frame_def)
  moreover
  have "get_tool_calls malformed_env [] =
     Inr [[(''function'', [(''name'', JStr ''search''), (''arguments'', JStr ''{bad'')])]]"
    by (simp add: malformed_env_def scripted_env_def)
  moreover
  have "json_loads malformed_env ''{bad'' = Inl DecodeError"
    by (simp add: malformed_env_def scripted_env_def)
  moreover
  have "collect_anthropic_response malformed_env (Chunk ''x'' EndOfStream) ''m'' (Some ''r'') =
     Inr (JObj [(''id'', JStr ''r''),
                (''type'', JStr ''message''),
                (''role'', JStr ''assistant''),
                (''content'', JList [JObj [(''type'', JStr ''text''), (''text'', JStr ''Hi'')]]),
                (''model'', JStr ''m''),
                (''stop_reason'', JStr ''end_turn''),
                (''stop_sequence'', JNull),
                (''usage'', JObj [(''input_tokens'', JInt 0), (''output_tokens'', JInt 0)])])"
    by (simp add: collect_anthropic_response_def malformed_env_def scripted_env_def
          one_marker_def resolve_request_id_def init_collect_state_def collect_event_def
          build_response_def text_block_def Let_def)
  ultimately show ?thesis by blast
qed


subsection \<open>The collector and the parser's tool calls\<close>

lemma collect_tool_calls_other_drain:
  "collect_tool_calls (env\<lparr>get_tool_calls := g\<rparr>) s tcs = collect_tool_calls env s tcs"
  by (induction tcs arbitrary: s) (simp_all add: collect_tool_use_def)

lemma collect_events_other_drain:
  "collect_events (env\<lparr>get_tool_calls := g\<rparr>) s evs = collect_events env s evs"
proof (induction evs arbitrary: s)
  case Nil
  show ?case by simp
next
  case (Cons ev evs)
  have "collect_event (env\<lparr>get_tool_calls := g\<rparr>) s ev = collect_event env s ev"
    by (cases ev) (simp_all add: collect_event_def collect_tool_calls_other_drain Let_def)
  then show ?case by (simp add: Cons.IH)
qed

lemma collect_loop_other_drain:
  "collect_loop (env\<lparr>get_tool_calls := g\<rparr>) p s resp = collect_loop env p s resp"
proof (induction resp arbitrary: p s)
  case EndOfStream
  show ?case by simp
next
  case (ReadError e)
  show ?case by simp
next
  case (Chunk chunk rest)
  show ?case
    by (simp add: Chunk.IH collect_events_other_drain split: sum.splits)
qed

lemma collect_ignores_get_tool_calls:
  "collect_anthropic_response (env\<lparr>get_tool_calls := g\<rparr>) resp model request_id =
     collect_anthropic_response env resp model request_id"
proof -
  have "resolve_request_id (env\<lparr>get_tool_calls := g\<rparr>) request_id =
          resolve_request_id env request_id"
    by (simp add: resolve_request_id_def split: option.splits)
  then show ?thesis
    by (simp add: collect_anthropic_response_def collect_loop_other_drain)
qed

text \<open>
  Up to the end of the loop the two functions agree: the collector's blocks are the
  generator's \<^verbatim>\<open>tool_uses\<close>, and the accumulated texts are equal.
\<close>

lemma inline_loops_agree:
  assumes "content_blocks c = tool_uses s"
    and "current_tool_index s = int (length (tool_uses s))"
  shows "content_blocks (collect_tool_calls env c tcs) =
           tool_uses (snd (emit_inline_tool_calls env s tcs))
         \<and> current_tool_index (snd (emit_inline_tool_calls env s tcs)) =
           int (length (tool_uses (snd (emit_inline_tool_calls env s tcs))))"
  using assms
proof (induction tcs arbitrary: c s)
  case Nil
  then show ?case by simp
next
  case (Cons tc tcs)
  let ?c1 = "c\<lparr>content_blocks := content_blocks c @ [collect_tool_use env c tc]\<rparr>"
  let ?s2 = "s\<lparr>tool_uses := tool_uses s @ [inline_tool_use env s tc],
               current_tool_index := current_tool_index s + 1\<rparr>"
  have same: "collect_tool_use env c tc = inline_tool_use env s tc"
    using Cons.prems by (simp add: collect_tool_use_def inline_tool_use_def)
  have a: "content_blocks ?c1 = tool_uses ?s2" using Cons.prems same by simp
  have b: "current_tool_index ?s2 = int (length (tool_uses ?s2))" using Cons.prems by simp
  from Cons.IH [OF a b] show ?case by (simp add: split_beta Let_def)
qed

lemma event_loops_agree:
  assumes "content_blocks c = tool_uses s"
    and "current_tool_index s = int (length (tool_uses s))"
    and "accumulated_text c = accumulated_text s"
  shows "content_blocks (collect_events env c evs) =
           tool_uses (snd (handle_events env rid model s evs))
         \<and> accumulated_text (collect_events env c evs) =
           accumulated_text (snd (handle_events env rid model s evs))"
  using assms
proof (induction evs arbitrary: c s)
  case Nil
  then show ?case by simp
next
  case (Cons ev evs)
  let ?c1 = "collect_event env c ev"
  let ?s1 = "snd (handle_event env rid model s ev)"
  have step: "content_blocks ?c1 = tool_uses ?s1
      \<and> current_tool_index ?s1 = int (length (tool_uses ?s1))
      \<and> accumulated_text ?c1 = accumulated_text ?s1"
  proof (cases ev)
    case (ContentEvent d)
    let ?s0 = "if \<not> message_started s then s\<lparr>message_started := True\<rparr> else s"
    have p: "content_blocks c = tool_uses ?s0"
      "current_tool_index ?s0 = int (length (tool_uses ?s0))"
      using Cons.prems by simp_all
    show ?thesis
      using ContentEvent Cons.prems inline_loops_agree [OF p, of env]
      by (auto simp add: handle_event_def handle_content_def collect_event_def split_beta
            Let_def collect_tool_calls_counters emit_inline_counters split: if_splits)
  next
    case (MetadataEvent m)
    then show ?thesis using Cons.prems by (simp add: handle_event_def collect_event_def)
  next
    case OtherEvent
    then show ?thesis using Cons.prems by (simp add: handle_event_def collect_event_def)
  qed
  from Cons.IH [of ?c1 ?s1] step show ?case by (simp add: split_beta Let_def)
qed

lemma collect_blocks_are_inline_tool_uses:
  assumes "collect_anthropic_response env resp model request_id = Inr obj"
    and "records env (new_parser env) resp = (evs, r)"
  shows "field ''content'' obj =
           Some (JList
             ((if accumulated_text (snd (handle_events env rid model init_stream_state evs)) \<noteq> []
               then [text_block
                       (accumulated_text (snd (handle_events env rid model init_stream_state evs)))]
               else [])
              @ tool_uses (snd (handle_events env rid model init_stream_state evs))))"
proof -
  have agree: "content_blocks (collect_events env init_collect_state evs) =
           tool_uses (snd (handle_events env rid model init_stream_state evs))
         \<and> accumulated_text (collect_events env init_collect_state evs) =
           accumulated_text (snd (handle_events env rid model init_stream_state evs))"
    by (rule event_loops_agree) (simp_all add: init_collect_state_def init_stream_state_def)
  have "obj = build_response (resolve_request_id env request_id) model
                (collect_events env init_collect_state evs)"
    using assms by (simp add: collect_by_records [OF assms(2)] split: sum.splits)
  then show ?thesis
    using agree by (simp add: build_response_def Let_def)
qed

text \<open>
  Claim C3 does not hold for the code. The generator reads
  \<^verbatim>\<open>parser.get_tool_calls()\<close> after the loop and yields a \<^verbatim>\<open>tool_use\<close> block for
  each call; the collector never reads it (its result is the same whatever it would
  return, \<open>collect_ignores_get_tool_calls\<close>, and its content list holds the text
  block and the invocations found by the extractor only,
  \<open>collect_blocks_are_inline_tool_uses\<close>). For a response that decodes to the text
  \<^verbatim>\<open>Hi\<close> and for which the parser returns one tool call at the end, the generator
  yields the text block at index 0 and the \<^verbatim>\<open>tool_use\<close> block at index 1 and ends
  with \<^verbatim>\<open>tool_use\<close>, while the collected object holds the text block only and ends
  with \<^verbatim>\<open>end_turn\<close>.
\<close>

theorem collect_drops_parser_tool_calls:
  "stream_kiro_to_anthropic deferred_env (Chunk ''x'' EndOfStream) ''m'' (Some ''r'') =
     ([message_start_frame ''r'' ''m'',
       block_start_frame 0 (text_block []),
       text_delta_frame ''Hi'',
       block_stop_frame 0,
       block_start_frame 1 (tool_use_block ''toolu_0_0'' (JStr ''search'') (JObj [])),
       block_stop_frame 1,
       message_delta_frame ''tool_use'' 0,
       message_stop_frame],
      Returned) \<and>
   collect_anthropic_response deferred_env (Chunk ''x'' EndOfStream) ''m'' (Some ''r'') =
     Inr (JObj [(''id'', JStr ''r''),
                (''type'', JStr ''message''),
                (''role'', JStr ''assistant''),
                (''content'', JList [text_block ''Hi'']),
                (''model'', JStr ''m''),
                (''stop_reason'', JStr ''end_turn''),
                (''stop_sequence'', JNull),
                (''usage'', JObj [(''input_tokens'', JInt 0), (''output_tokens'', JInt 0)])])"
proof -
  have "stream_kiro_to_anthropic deferred_env (Chunk ''x'' EndOfStream) ''m'' (Some ''r'') =
     ([message_start_frame ''r'' ''m'',
       block_start_frame 0 (text_block []),
       text_delta_frame ''Hi'',
       block_stop_frame 0,
       block_start_frame 1 (tool_use_block ''toolu_0_0'' (JStr ''search'') (JObj [])),
       block_stop_frame 1,
       message_delta_frame ''tool_use'' 0,
       message_stop_frame],
      Returned)"
    by (simp add: stream_kiro_to_anthropic_def deferred_env_def scripted_env_def no_markers_def
          resolve_request_id_def init_stream_state_def handle_event_def handle_content_def
          finish_def parser_tool_use_def parse_arguments_def Let_def tool_use_id_def str_int_def
          str_nat.simps dict_get_def)
  moreover
  have "collect_anthropic_response deferred_env (Chunk ''x'' EndOfStream) ''m'' (Some ''r'') =
     Inr (JObj [(''id'', JStr ''r''),
                (''type'', JStr ''message''),
                (''role'', JStr ''assistant''),
                (''content'', JList [text_block ''Hi'']),
                (''model'', JStr ''m''),
                (''stop_reason'', JStr ''end_turn''),
                (''stop_sequence'', JNull),
                (''usage'', JObj [(''input_tokens'', JInt 0), (''output_tokens'', JInt 0)])])"
    by (simp add: collect_anthropic_response_def deferred_env_def scripted_env_def no_markers_def
          resolve_request_id_def init_collect_state_def collect_event_def build_response_def
          Let_def)
  ultimately show ?thesis by simp
qed


subsection \<open>The indices of the tool-use blocks among themselves\<close>

lemma tool_use_indices_simps:
  "tool_use_indices [] = []"
  "tool_use_indices (f # fs) =
     (case tool_use_start_index f of None \<Rightarrow> tool_use_indices fs
      | Some i \<Rightarrow> i # tool_use_indices fs)"
  "tool_use_indices (fs @ gs) = tool_use_indices fs @ tool_use_indices gs"
  by (simp_all add: tool_use_indices_def List.map_filter_def split: option.splits)

lemma tool_use_start_index_frames:
  "tool_use_start_index (block_start_frame i (tool_use_block ident nm inp)) = Some i"
  "tool_use_start_index (block_start_frame i (text_block t)) = None"
  "tool_use_start_index (block_stop_frame i) = None"
  "tool_use_start_index (text_delta_frame content) = None"
  "tool_use_start_index (message_start_frame rid model) = None"
  "tool_use_start_index (message_delta_frame reason n) = None"
  "tool_use_start_index message_stop_frame = None"
  "tool_use_start_index (error_frame e) = None"
  by (simp_all add: block_start_frame_def block_stop_frame_def text_delta_frame_def
        message_start_frame_def message_delta_frame_def message_stop_frame_def error_frame_def
        tool_use_block_def text_block_def is_tool_use_def split: exn.splits)

lemma increasing_between_Nil: "lo \<le> hi \<Longrightarrow> increasing_between lo hi []"
  by (simp add: increasing_between_def)

lemma increasing_between_append:
  assumes "increasing_between lo mid xs" and "increasing_between mid hi ys"
  shows "increasing_between lo hi (xs @ ys)"
  using assms
  by (fastforce simp add: increasing_between_def sorted_wrt_append list_all_iff)

lemma increasing_between_Cons:
  assumes "increasing_between (i + 1) hi xs"
  shows "increasing_between i hi (i # xs)"
  using assms by (fastforce simp add: increasing_between_def list_all_iff)

lemma emit_inline_indices:
  "increasing_between (current_tool_index s)
     (current_tool_index (snd (emit_inline_tool_calls env s tcs)))
     (tool_use_indices (fst (emit_inline_tool_calls env s tcs)))"
proof (induction tcs arbitrary: s)
  case Nil
  show ?case by (simp add: tool_use_indices_simps increasing_between_Nil)
next
  case (Cons tc tcs)
  let ?s2 = "s\<lparr>tool_uses := tool_uses s @ [inline_tool_use env s tc],
               current_tool_index := current_tool_index s + 1\<rparr>"
  have "increasing_between (current_tool_index s + 1)
          (current_tool_index (snd (emit_inline_tool_calls env ?s2 tcs)))
          (tool_use_indices (fst (emit_inline_tool_calls env ?s2 tcs)))"
    using Cons.IH [of ?s2] by simp
  from increasing_between_Cons [OF this] show ?case
    by (simp add: split_beta Let_def tool_use_indices_simps tool_use_start_index_frames
          inline_tool_use_def)
qed

lemma handle_event_indices:
  "increasing_between (current_tool_index s)
     (current_tool_index (snd (handle_event env rid model s ev)))
     (tool_use_indices (fst (handle_event env rid model s ev)))"
proof (cases ev)
  case (ContentEvent d)
  let ?s0 = "if \<not> message_started s then s\<lparr>message_started := True\<rparr> else s"
  have "current_tool_index ?s0 = current_tool_index s" by simp
  then have "increasing_between (current_tool_index s)
     (current_tool_index (snd (emit_inline_tool_calls env ?s0 tcs)))
     (tool_use_indices (fst (emit_inline_tool_calls env ?s0 tcs)))" for tcs
    using emit_inline_indices [of ?s0 env tcs] by simp
  then show ?thesis
    using ContentEvent
    by (auto simp add: handle_event_def handle_content_def split_beta Let_def
          tool_use_indices_simps tool_use_start_index_frames increasing_between_Nil
          split: if_splits)
next
  case (MetadataEvent m)
  then show ?thesis
    by (simp add: handle_event_def tool_use_indices_simps increasing_between_Nil)
next
  case OtherEvent
  then show ?thesis
    by (simp add: handle_event_def tool_use_indices_simps increasing_between_Nil)
qed

lemma handle_events_indices:
  "increasing_between (current_tool_index s)
     (current_tool_index (snd (handle_events env rid model s evs)))
     (tool_use_indices (fst (handle_events env rid model s evs)))"
proof (induction evs arbitrary: s)
  case Nil
  show ?case by (simp add: tool_use_indices_simps increasing_between_Nil)
next
  case (Cons ev evs)
  show ?case
    using increasing_between_append
      [OF handle_event_indices [of s env rid model ev]
          Cons.IH [of "snd (handle_event env rid model s ev)"]]
    by (simp add: split_beta Let_def tool_use_indices_simps)
qed

lemma increasing_between_widen:
  assumes "increasing_between lo hi xs" and "lo' \<le> lo"
  shows "increasing_between lo' hi xs"
  using assms by (fastforce simp add: increasing_between_def list_all_iff)

lemma emit_parser_indices:
  "\<exists>hi. increasing_between
          (current_tool_index s + (if accumulated_text s \<noteq> [] then 1 else 0)) hi
          (tool_use_indices (fst (emit_parser_tool_calls env s tcs)))"
proof (induction tcs arbitrary: s)
  case Nil
  have "increasing_between
          (current_tool_index s + (if accumulated_text s \<noteq> [] then 1 else 0))
          (current_tool_index s + (if accumulated_text s \<noteq> [] then 1 else 0)) []"
    by (rule increasing_between_Nil) simp
  then show ?case by (auto simp add: tool_use_indices_simps)
next
  case (Cons tc tcs)
  let ?lo = "current_tool_index s + (if accumulated_text s \<noteq> [] then 1 else 0)"
  show ?case
  proof (cases "parse_arguments env tc")
    case (Inl e)
    have "increasing_between ?lo ?lo []"
      by (rule increasing_between_Nil) simp
    then show ?thesis
      using Inl by (auto simp add: tool_use_indices_simps)
  next
    case (Inr arguments)
    let ?s2 = "s\<lparr>tool_uses := tool_uses s @ [parser_tool_use env s tc arguments],
                 current_tool_index := current_tool_index s + 1\<rparr>"
    obtain hi where "increasing_between
        (current_tool_index ?s2 + (if accumulated_text ?s2 \<noteq> [] then 1 else 0)) hi
        (tool_use_indices (fst (emit_parser_tool_calls env ?s2 tcs)))"
      using Cons.IH [of ?s2] by blast
    then have hi: "increasing_between
        (current_tool_index s + 1 + (if accumulated_text s \<noteq> [] then 1 else 0)) hi
        (tool_use_indices (fst (emit_parser_tool_calls env ?s2 tcs)))"
      by simp
    show ?thesis
    proof (cases "accumulated_text s = []")
      case True
      have "increasing_between (current_tool_index s + 1) hi
          (tool_use_indices (fst (emit_parser_tool_calls env ?s2 tcs)))"
        using hi True by simp
      from increasing_between_Cons [OF this]
      have "increasing_between (current_tool_index s) hi
          (tool_use_indices (fst (emit_parser_tool_calls env s (tc # tcs))))"
        using Inr True
        by (simp add: split_beta Let_def tool_use_indices_simps tool_use_start_index_frames
              parser_tool_use_def)
      then show ?thesis using True by auto
    next
      case False
      have "increasing_between (current_tool_index s + 1 + 1) hi
          (tool_use_indices (fst (emit_parser_tool_calls env ?s2 tcs)))"
        using hi False by simp
      from increasing_between_Cons [OF this]
      have "increasing_between (current_tool_index s + 1) hi
          (tool_use_indices (fst (emit_parser_tool_calls env s (tc # tcs))))"
        using Inr False
        by (simp add: split_beta Let_def tool_use_indices_simps tool_use_start_index_frames
              parser_tool_use_def)
      then show ?thesis using False by auto
    qed
  qed
qed

lemma stream_tool_use_indices_increasing:
  "sorted_wrt (<) (tool_use_indices (fst (stream_kiro_to_anthropic env resp model request_id)))"
proof -
  obtain evs r where rec: "records env (new_parser env) resp = (evs, r)"
    by (cases "records env (new_parser env) resp")
  let ?hs = "handle_events env (resolve_request_id env request_id) model init_stream_state evs"
  let ?c = "current_tool_index (snd ?hs)"
  let ?stop = "if accumulated_text (snd ?hs) \<noteq> [] then [block_stop_frame 0] else []"
  have loop: "increasing_between 0 ?c (tool_use_indices (fst ?hs))"
    using handle_events_indices [of init_stream_state env _ model evs]
    by (simp add: init_stream_state_def)
  have stop: "tool_use_indices ?stop = []"
    by (simp add: tool_use_indices_simps tool_use_start_index_frames)
  show ?thesis
  proof (cases r)
    case (Inl e)
    then show ?thesis
      using loop
      by (simp add: stream_by_records [OF rec] Let_def tool_use_indices_simps
            tool_use_start_index_frames increasing_between_def)
  next
    case (Inr p)
    show ?thesis
    proof (cases "get_tool_calls env p")
      case (Inl e)
      then show ?thesis
        using loop stop Inr
        by (simp add: stream_by_records [OF rec] finish_drain_fails Let_def
              tool_use_indices_simps tool_use_start_index_frames increasing_between_def)
    next
      case drain: (Inr tcs)
      let ?calls = "fst (emit_parser_tool_calls env (snd ?hs) tcs)"
      obtain hi where "increasing_between
          (?c + (if accumulated_text (snd ?hs) \<noteq> [] then 1 else 0)) hi
          (tool_use_indices ?calls)"
        using emit_parser_indices [of "snd ?hs" env tcs] by blast
      then have "increasing_between ?c hi (tool_use_indices ?calls)"
        by (rule increasing_between_widen) simp
      from increasing_between_append [OF loop this]
      have sorted: "sorted_wrt (<) (tool_use_indices (fst ?hs) @ tool_use_indices ?calls)"
        by (simp add: increasing_between_def)
      show ?thesis
      proof (cases "conversion_failure env tcs")
        case None
        show ?thesis
          using sorted stop Inr
          by (simp add: stream_completed [OF rec [unfolded Inr] drain None] Let_def
                tool_use_indices_simps tool_use_start_index_frames)
      next
        case (Some e)
        show ?thesis
          using sorted stop Inr
          by (simp add: stream_by_records [OF rec] finish_conversion_fails [OF drain Some]
                Let_def tool_use_indices_simps tool_use_start_index_frames)
      qed
    qed
  qed
qed


subsection \<open>Block indices\<close>

text \<open>
  Claim C1 does not hold for the code. In the content branch a \<^verbatim>\<open>tool_use\<close> block
  gets the index \<^verbatim>\<open>current_tool_index\<close>, which starts at 0, while the text block is
  always at index 0; only the loop over the parser's tool calls adds 1 when there is
  text. For a text record followed by a record that is a marker, the generator opens the
  text block at index 0 and then starts, and stops, a \<^verbatim>\<open>tool_use\<close> block at index 0
  as well, before the text block is stopped. (Among themselves the indices of the
  \<^verbatim>\<open>tool_use\<close> blocks do increase strictly:
  \<open>stream_tool_use_indices_increasing\<close>.)
\<close>

theorem inline_tool_use_reuses_index_0:
  "stream_kiro_to_anthropic text_then_marker_env (Chunk ''x'' EndOfStream) ''m'' (Some ''r'') =
     ([message_start_frame ''r'' ''m'',
       block_start_frame 0 (text_block []),
       text_delta_frame ''Hello'',
       block_start_frame 0 (tool_use_block ''toolu_0_0'' (JStr ''search'') (JObj [])),
       block_stop_frame 0,
       block_stop_frame 0,
       message_delta_frame ''tool_use'' 0,
       message_stop_frame],
      Returned)"
  by (simp add: stream_kiro_to_anthropic_def text_then_marker_env_def scripted_env_def
        one_marker_def resolve_request_id_def init_stream_state_def handle_event_def
        handle_content_def inline_tool_use_def finish_def Let_def tool_use_id_def str_int_def
        str_nat.simps dict_get_def)

end
